theory Spec2Isabelle
  imports Main "HOL-Library.Multiset"
begin

section \<open>Cards, hands and the deck (chinchon/deck.go)\<close>

text \<open>
  A Go \<open>int\<close> has 64 bits. It is modelled by an \<open>int\<close> in the range of \<open>int64\<close>, and every
  addition of the source is followed by \<open>wrap64\<close>, the wrap-around of two's complement
  arithmetic. A Go \<open>string\<close> is a \<open>string\<close>.
\<close>

definition int64 :: "int \<Rightarrow> bool" where
  "int64 n = (- (2 ^ 63) \<le> n \<and> n < 2 ^ 63)"

definition wrap64 :: "int \<Rightarrow> int" where
  "wrap64 n = (n + 2 ^ 63) mod 2 ^ 64 - 2 ^ 63"

definition ORO :: string where "ORO = ''oro''"
definition COPA :: string where "COPA = ''copa''"
definition ESPADA :: string where "ESPADA = ''espada''"
definition BASTO :: string where "BASTO = ''basto''"

record Card =
  Suit :: string
  Number :: int

text \<open>The errors of the engine; \<open>Panic\<close> stands for a Go run-time panic (nil
  dereference, index out of range).\<close>

datatype error =
    errActionNotPossible
  | errGameIsEnded
  | errNotYourTurn
  | errCardNotInHand
  | errDeckEmpty
  | errDiscardPileEmpty
  | errUnknownAction
  | errJSON
  | Panic

definition bindE :: "error + 'a \<Rightarrow> ('a \<Rightarrow> error + 'b) \<Rightarrow> error + 'b" where
  "bindE m f = (case m of Inl e \<Rightarrow> Inl e | Inr x \<Rightarrow> f x)"

definition PenaltyValue :: "Card \<Rightarrow> int" where
  "PenaltyValue c = (if Number c \<ge> 10 then 10 else Number c)"

text \<open>A \<open>Hand\<close> is its slice of cards; a \<open>*Hand\<close> that may be nil is a
  \<open>Card list option\<close>.\<close>

type_synonym Hand = "Card list"

fun HasCard :: "Hand \<Rightarrow> Card \<Rightarrow> bool" where
  "HasCard [] c = False"
| "HasCard (crd # cards) c = (if crd = c then True else HasCard cards c)"

definition AddCard :: "Hand \<Rightarrow> Card \<Rightarrow> Hand" where
  "AddCard h crd = h @ [crd]"

text \<open>\<open>RemoveCard\<close> deletes the first occurrence, or fails.\<close>

fun RemoveCard :: "Hand \<Rightarrow> Card \<Rightarrow> error + Hand" where
  "RemoveCard [] crd = Inl errCardNotInHand"
| "RemoveCard (c # cs) crd =
     (if c = crd then Inr cs
      else (case RemoveCard cs crd of Inl e \<Rightarrow> Inl e | Inr cs' \<Rightarrow> Inr (c # cs')))"

text \<open>
  \<open>suitCards[card.Suit] = append(suitCards[card.Suit], card)\<close>: a Go map from a key to
  a slice, built by appending. The map is an association list whose keys are in order
  of first insertion; Go leaves the iteration order of a map unspecified, and the
  callers below (\<open>PenaltyPoints\<close>, \<open>CanClose\<close>, \<open>IsChinchon\<close>) depend only on which
  groups exist, not on their order.
\<close>

fun appendTo :: "('k \<times> 'a list) list \<Rightarrow> 'k \<Rightarrow> 'a \<Rightarrow> ('k \<times> 'a list) list" where
  "appendTo [] k x = [(k, [x])]"
| "appendTo ((k', xs) # m) k x =
     (if k' = k then (k', xs @ [x]) # m else (k', xs) # appendTo m k x)"

definition groupBy :: "('a \<Rightarrow> 'k) \<Rightarrow> 'a list \<Rightarrow> ('k \<times> 'a list) list" where
  "groupBy key xs = fold (\<lambda>x m. appendTo m (key x) x) xs []"

text \<open>
  The in-place exchange sort of \<open>findRuns\<close> and \<open>IsChinchon\<close>:
  \<^verbatim>\<open>for i { for j := i+1.. { if cards[i].Number > cards[j].Number { swap } } }\<close>.
  \<open>sortInner x rest\<close> is one run of the inner loop with \<open>cards[i] = x\<close>: it returns the
  final \<open>cards[i]\<close> and the rest of the slice after the swaps.
\<close>

fun sortInner :: "Card \<Rightarrow> Card list \<Rightarrow> Card \<times> Card list" where
  "sortInner x [] = (x, [])"
| "sortInner x (y # ys) =
     (if Number x > Number y
      then (case sortInner y ys of (m, r) \<Rightarrow> (m, x # r))
      else (case sortInner x ys of (m, r) \<Rightarrow> (m, y # r)))"

lemma sortInner_length [simp]: "length (snd (sortInner x ys)) = length ys"
  by (induction x ys rule: sortInner.induct) (auto split: prod.splits)

function sortCards :: "Card list \<Rightarrow> Card list" where
  "sortCards [] = []"
| "sortCards (x # xs) = fst (sortInner x xs) # sortCards (snd (sortInner x xs))"
  by pat_completeness auto
termination
  by (relation "measure length") auto

text \<open>Extending a run greedily from its first card, until the first gap.\<close>

fun extendRun :: "Card list \<Rightarrow> Card list \<Rightarrow> Card list" where
  "extendRun run [] = run"
| "extendRun run (c # cs) =
     (if Number c = wrap64 (Number (last run) + 1) then extendRun (run @ [c]) cs else run)"

text \<open>\<open>for i := 0; i <= len(cards)-3; i++\<close> over the sorted cards of one suit.\<close>

fun runsOfSorted :: "Card list \<Rightarrow> Card list list" where
  "runsOfSorted [] = []"
| "runsOfSorted (c # cs) =
     (if length (c # cs) < 3 then []
      else (let run = extendRun [c] cs
            in (if length run \<ge> 3 then [run] else []) @ runsOfSorted cs))"

fun findRunsLoop :: "(string \<times> Card list) list \<Rightarrow> Card list list" where
  "findRunsLoop [] = []"
| "findRunsLoop ((s, cards) # rest) =
     (if length cards < 3 then findRunsLoop rest
      else runsOfSorted (sortCards cards) @ findRunsLoop rest)"

definition findRuns :: "Hand \<Rightarrow> Card list list" where
  "findRuns h = findRunsLoop (groupBy Suit h)"

text \<open>The check that the cards of one number have pairwise different suits;
  \<open>suits\<close> is the set of suits seen so far.\<close>

fun validSet :: "string list \<Rightarrow> Card list \<Rightarrow> bool" where
  "validSet suits [] = True"
| "validSet suits (crd # cards) =
     (if Suit crd \<in> set suits then False else validSet (Suit crd # suits) cards)"

fun findSetsLoop :: "(int \<times> Card list) list \<Rightarrow> Card list list" where
  "findSetsLoop [] = []"
| "findSetsLoop ((n, cards) # rest) =
     (if length cards \<ge> 3 \<and> validSet [] cards then cards # findSetsLoop rest
      else findSetsLoop rest)"

definition findSets :: "Hand \<Rightarrow> Card list list" where
  "findSets h = findSetsLoop (groupBy Number h)"

definition ValidGroups :: "Hand \<Rightarrow> Card list list" where
  "ValidGroups h = findRuns h @ findSets h"

fun consecutive :: "Card list \<Rightarrow> bool" where
  "consecutive [] = True"
| "consecutive [c] = True"
| "consecutive (c # d # cs) =
     (if Number d \<noteq> wrap64 (Number c + 1) then False else consecutive (d # cs))"

fun IsChinchonLoop :: "(string \<times> Card list) list \<Rightarrow> bool" where
  "IsChinchonLoop [] = False"
| "IsChinchonLoop ((s, cards) # rest) =
     (if length cards = 7 then consecutive (sortCards cards) else IsChinchonLoop rest)"

definition IsChinchon :: "Hand \<Rightarrow> bool" where
  "IsChinchon h = (if length h \<noteq> 7 then False else IsChinchonLoop (groupBy Suit h))"

text \<open>\<open>groupedCards := make(map[Card]bool)\<close>, filled from every card of every group.\<close>

definition groupedCards :: "Card list list \<Rightarrow> Card \<Rightarrow> bool" where
  "groupedCards groups =
     fold (\<lambda>group m. fold (\<lambda>crd m'. m'(crd := True)) group m) groups (\<lambda>_. False)"

definition PenaltyPoints :: "Hand \<Rightarrow> Card list list \<Rightarrow> int" where
  "PenaltyPoints h groups =
     fold (\<lambda>crd penalty. if \<not> groupedCards groups crd
                          then wrap64 (penalty + PenaltyValue crd) else penalty) h 0"

text \<open>The deck as the two nested loops of \<open>makeSpanishCards\<close> build it, before
  \<open>rand.Shuffle\<close>.\<close>

definition unshuffledCards :: "Card list" where
  "unshuffledCards =
     concat (map (\<lambda>suit. map (\<lambda>i. \<lparr>Suit = suit, Number = i\<rparr>) [1..12])
                 [ORO, COPA, ESPADA, BASTO])"

text \<open>\<open>makeSpanishCards\<close> returns a random permutation of these cards. The random
  source is outside the model: the functions below take the permutation that a call
  returns as a parameter, and \<open>isShuffle\<close> says what it can be.\<close>

definition isShuffle :: "Card list \<Rightarrow> bool" where
  "isShuffle cards = (mset cards = mset unshuffledCards)"

text \<open>\<open>defaultDealHand\<close>: seven times, take the front card if there is one. The result
  is the hand and the remaining deck.\<close>

primrec dealLoop :: "nat \<Rightarrow> Card list \<Rightarrow> Card list \<Rightarrow> Card list \<times> Card list" where
  "dealLoop 0 hand cards = (hand, cards)"
| "dealLoop (Suc n) hand cards =
     (case cards of [] \<Rightarrow> dealLoop n hand cards
      | c # cs \<Rightarrow> dealLoop n (hand @ [c]) cs)"

definition dealHand :: "Card list \<Rightarrow> Hand \<times> Card list" where
  "dealHand cards = dealLoop 7 [] cards"

definition drawCard :: "Card list \<Rightarrow> error + (Card \<times> Card list)" where
  "drawCard cards = (case cards of [] \<Rightarrow> Inl errDeckEmpty | crd # rest \<Rightarrow> Inr (crd, rest))"

definition isEmpty :: "Card list \<Rightarrow> bool" where
  "isEmpty cards = (length cards = 0)"

definition remainingCards :: "Card list \<Rightarrow> int" where
  "remainingCards cards = int (length cards)"

section \<open>Actions and their serialization (chinchon/actions.go)\<close>

text \<open>
  A JSON document as \<open>encoding/json\<close> sees it after parsing. The byte syntax of the
  standard library is outside the model; strings are the decoded strings, and a number
  is either an integer literal or a literal with a fraction or an exponent.
\<close>

datatype json =
    JNull
  | JBool bool
  | JNumber int
  | JFraction string
  | JString string
  | JArray "json list"
  | JObject "(string \<times> json) list"

definition DRAW_FROM_DECK :: string where "DRAW_FROM_DECK = ''draw_from_deck''"
definition DRAW_FROM_DISCARD :: string where "DRAW_FROM_DISCARD = ''draw_from_discard''"
definition DISCARD_CARD :: string where "DISCARD_CARD = ''discard_card''"
definition CLOSE_ROUND :: string where "CLOSE_ROUND = ''close_round''"
definition CONFIRM_ROUND_FINISHED :: string where
  "CONFIRM_ROUND_FINISHED = ''confirm_round_finished''"

record act =
  Name :: string
  PlayerID :: int

text \<open>The five implementations of the \<open>Action\<close> interface; a nil \<open>Action\<close> is
  \<open>None\<close> of \<open>Action option\<close>.\<close>

datatype Action =
    ActionDrawFromDeck act
  | ActionDrawFromDiscard act
  | ActionDiscardCard act Card
  | ActionClose act
  | ActionConfirmRoundFinished act

definition NewActionDrawFromDeck :: "int \<Rightarrow> Action" where
  "NewActionDrawFromDeck playerID =
     ActionDrawFromDeck \<lparr>Name = DRAW_FROM_DECK, PlayerID = playerID\<rparr>"

definition NewActionDrawFromDiscard :: "int \<Rightarrow> Action" where
  "NewActionDrawFromDiscard playerID =
     ActionDrawFromDiscard \<lparr>Name = DRAW_FROM_DISCARD, PlayerID = playerID\<rparr>"

definition NewActionDiscardCard :: "Card \<Rightarrow> int \<Rightarrow> Action" where
  "NewActionDiscardCard crd playerID =
     ActionDiscardCard \<lparr>Name = DISCARD_CARD, PlayerID = playerID\<rparr> crd"

definition NewActionClose :: "int \<Rightarrow> Action" where
  "NewActionClose playerID = ActionClose \<lparr>Name = CLOSE_ROUND, PlayerID = playerID\<rparr>"

definition NewActionConfirmRoundFinished :: "int \<Rightarrow> Action" where
  "NewActionConfirmRoundFinished playerID =
     ActionConfirmRoundFinished \<lparr>Name = CONFIRM_ROUND_FINISHED, PlayerID = playerID\<rparr>"

fun actOf :: "Action \<Rightarrow> act" where
  "actOf (ActionDrawFromDeck a) = a"
| "actOf (ActionDrawFromDiscard a) = a"
| "actOf (ActionDiscardCard a c) = a"
| "actOf (ActionClose a) = a"
| "actOf (ActionConfirmRoundFinished a) = a"

definition GetName :: "Action \<Rightarrow> string" where
  "GetName a = Name (actOf a)"

definition GetPlayerID :: "Action \<Rightarrow> int" where
  "GetPlayerID a = PlayerID (actOf a)"

definition GetPriority :: "Action \<Rightarrow> int" where
  "GetPriority a = 0"

definition AllowLowerPriority :: "Action \<Rightarrow> bool" where
  "AllowLowerPriority a = False"

text \<open>
  \<open>json.Marshal\<close> coerces a Go string to valid UTF-8: every byte that does not start a
  well-formed UTF-8 sequence becomes the replacement character U+FFFD (bytes EF BF BD).
  \<open>tailRanges\<close> gives, for a first byte, the ranges of the bytes that must follow it;
  the first argument of \<open>coerce\<close> counts the bytes of a sequence still to be copied.
\<close>

definition byte :: "char \<Rightarrow> nat" where
  "byte c = of_char c"

definition tailRanges :: "nat \<Rightarrow> (nat \<times> nat) list option" where
  "tailRanges b =
     (if b < 0x80 then Some []
      else if 0xC2 \<le> b \<and> b \<le> 0xDF then Some [(0x80, 0xBF)]
      else if b = 0xE0 then Some [(0xA0, 0xBF), (0x80, 0xBF)]
      else if 0xE1 \<le> b \<and> b \<le> 0xEC then Some [(0x80, 0xBF), (0x80, 0xBF)]
      else if b = 0xED then Some [(0x80, 0x9F), (0x80, 0xBF)]
      else if 0xEE \<le> b \<and> b \<le> 0xEF then Some [(0x80, 0xBF), (0x80, 0xBF)]
      else if b = 0xF0 then Some [(0x90, 0xBF), (0x80, 0xBF), (0x80, 0xBF)]
      else if 0xF1 \<le> b \<and> b \<le> 0xF3 then Some [(0x80, 0xBF), (0x80, 0xBF), (0x80, 0xBF)]
      else if b = 0xF4 then Some [(0x80, 0x8F), (0x80, 0xBF), (0x80, 0xBF)]
      else None)"

fun inRanges :: "(nat \<times> nat) list \<Rightarrow> string \<Rightarrow> bool" where
  "inRanges [] cs = True"
| "inRanges ((lo, hi) # rs) [] = False"
| "inRanges ((lo, hi) # rs) (c # cs) = (lo \<le> byte c \<and> byte c \<le> hi \<and> inRanges rs cs)"

fun coerce :: "nat \<Rightarrow> string \<Rightarrow> string" where
  "coerce k [] = []"
| "coerce (Suc k) (c # cs) = c # coerce k cs"
| "coerce 0 (c # cs) =
     (case tailRanges (byte c) of
        None \<Rightarrow> [CHR 0xEF, CHR 0xBF, CHR 0xBD] @ coerce 0 cs
      | Some rs \<Rightarrow>
          if inRanges rs cs then c # coerce (length rs) cs
          else [CHR 0xEF, CHR 0xBF, CHR 0xBD] @ coerce 0 cs)"

definition toValidUTF8 :: "string \<Rightarrow> string" where
  "toValidUTF8 s = coerce 0 s"

text \<open>\<open>json.Marshal\<close> of a card and of an action: the embedded \<open>act\<close> gives the
  fields \<open>name\<close> and \<open>playerID\<close>, the discard action adds \<open>card\<close>.\<close>

definition marshalCard :: "Card \<Rightarrow> json" where
  "marshalCard c =
     JObject [(''suit'', JString (toValidUTF8 (Suit c))), (''number'', JNumber (Number c))]"

definition marshalAct :: "act \<Rightarrow> (string \<times> json) list" where
  "marshalAct a =
     [(''name'', JString (toValidUTF8 (Name a))), (''playerID'', JNumber (PlayerID a))]"

fun SerializeAction :: "Action \<Rightarrow> json" where
  "SerializeAction (ActionDrawFromDeck a) = JObject (marshalAct a)"
| "SerializeAction (ActionDrawFromDiscard a) = JObject (marshalAct a)"
| "SerializeAction (ActionDiscardCard a c) = JObject (marshalAct a @ [(''card'', marshalCard c)])"
| "SerializeAction (ActionClose a) = JObject (marshalAct a)"
| "SerializeAction (ActionConfirmRoundFinished a) = JObject (marshalAct a)"

definition serializeActions :: "Action list \<Rightarrow> json list" where
  "serializeActions as = map SerializeAction as"














section \<open>The game state\<close>

text \<open>
  Go maps are partial functions. A \<open>range\<close> over a map visits its keys in an order that
  Go leaves open: every such loop whose result can depend on the order takes the order as
  a parameter, a list that enumerates the keys (\<open>enumerates\<close>).
\<close>

record Player =
  Hand :: "Hand option"
  Score :: int

record ActionLog =
  LogPlayerID :: int
  LogAction :: json

record RoundLog =
  HandsDealt :: "int \<rightharpoonup> Hand"
  RoundWinnerPlayerID :: int
  RoundLoserPlayerID :: int
  RoundPenaltyPoints :: "int \<rightharpoonup> int"
  ClosedByPlayerID :: int
  WasChinchon :: bool
  ActionsLog :: "ActionLog list"

record GameState =
  RoundNumber :: int
  TurnPlayerID :: int
  TurnOpponentPlayerID :: int
  Players :: "int \<rightharpoonup> Player"
  DrawPile :: "Card list"
  DiscardPile :: "Card list"
  PossibleActions :: "json list"
  IsRoundFinished :: bool
  IsGameEnded :: bool
  WinnerPlayerID :: int
  LoserPlayerID :: int
  RoundsLog :: "RoundLog list"
  RoundFinishedConfirmedPlayerIDs :: "int \<rightharpoonup> bool"
  RuleMaxPoints :: int
  CurrentRoundClosedByPlayerID :: int
  HasDrawnCard :: bool

text \<open>What the engine takes from outside in one call: the deck that
  \<open>makeSpanishCards\<close> returns, and the orders in which the loops over \<open>g.Players\<close> run
  (in \<open>CloseRound\<close>, at the end of \<open>RunAction\<close>, and in \<open>OpponentOf\<close>).\<close>

record Env =
  shuffled :: "Card list"
  closeRange :: "int list"
  scoreRange :: "int list"
  keyRange :: "int list"

definition enumerates :: "int list \<Rightarrow> (int \<rightharpoonup> 'a) \<Rightarrow> bool" where
  "enumerates keys m = (distinct keys \<and> set keys = dom m)"

definition validEnv :: "Env \<Rightarrow> GameState \<Rightarrow> bool" where
  "validEnv env g =
     (isShuffle (shuffled env) \<and> enumerates (closeRange env) (Players g)
      \<and> enumerates (scoreRange env) (Players g) \<and> enumerates (keyRange env) (Players g))"

definition DefaultMaxPoints :: int where
  "DefaultMaxPoints = 100"

definition WithMaxPoints :: "int \<Rightarrow> GameState \<Rightarrow> GameState" where
  "WithMaxPoints maxPoints gs = gs\<lparr>RuleMaxPoints := maxPoints\<rparr>"

text \<open>\<open>OpponentOf\<close>: the first key of the loop that differs from \<open>playerID\<close>.\<close>

fun OpponentOf :: "int list \<Rightarrow> int \<Rightarrow> int" where
  "OpponentOf [] playerID = -1"
| "OpponentOf (k # ks) playerID = (if k \<noteq> playerID then k else OpponentOf ks playerID)"

text \<open>\<open>g.Players[id].Hand\<close> read through both pointers: a missing player or a nil
  hand is a nil dereference.\<close>

definition handOf :: "GameState \<Rightarrow> int \<Rightarrow> error + Hand" where
  "handOf g playerID =
     (case Players g playerID of
        None \<Rightarrow> Inl Panic
      | Some p \<Rightarrow> (case Hand p of None \<Rightarrow> Inl Panic | Some h \<Rightarrow> Inr h))"

definition setHand :: "GameState \<Rightarrow> int \<Rightarrow> Hand \<Rightarrow> error + GameState" where
  "setHand g playerID h =
     (case Players g playerID of
        None \<Rightarrow> Inl Panic
      | Some p \<Rightarrow> Inr (g\<lparr>Players := (Players g)(playerID \<mapsto> p\<lparr>Hand := Some h\<rparr>)\<rparr>))"

definition addScore :: "GameState \<Rightarrow> int \<Rightarrow> int \<Rightarrow> error + GameState" where
  "addScore g playerID n =
     (case Players g playerID of
        None \<Rightarrow> Inl Panic
      | Some p \<Rightarrow> Inr (g\<lparr>Players := (Players g)(playerID \<mapsto> p\<lparr>Score := wrap64 (Score p + n)\<rparr>)\<rparr>))"

text \<open>\<open>g.RoundsLog[g.RoundNumber]\<close> updated in place; an index out of range panics.\<close>

definition updateRoundLog :: "GameState \<Rightarrow> (RoundLog \<Rightarrow> RoundLog) \<Rightarrow> error + GameState" where
  "updateRoundLog g f =
     (if 0 \<le> RoundNumber g \<and> nat (RoundNumber g) < length (RoundsLog g)
      then Inr (g\<lparr>RoundsLog := (RoundsLog g)[nat (RoundNumber g) :=
                                   f (RoundsLog g ! nat (RoundNumber g))]\<rparr>)
      else Inl Panic)"

definition GetTopDiscardCard :: "GameState \<Rightarrow> error + Card" where
  "GetTopDiscardCard g =
     (if length (DiscardPile g) = 0 then Inl errDiscardPileEmpty else Inr (last (DiscardPile g)))"

definition ungroupedCount :: "Hand \<Rightarrow> int" where
  "ungroupedCount h =
     fold (\<lambda>crd n. if \<not> groupedCards (ValidGroups h) crd then wrap64 (n + 1) else n) h 0"

definition CanClose :: "GameState \<Rightarrow> int \<Rightarrow> error + bool" where
  "CanClose g playerID =
     (if IsRoundFinished g then Inr False
      else (case Players g playerID of
              None \<Rightarrow> Inl Panic
            | Some p \<Rightarrow>
                (case Hand p of
                   None \<Rightarrow> Inr False
                 | Some h \<Rightarrow> if length h \<noteq> 7 then Inr False else Inr (ungroupedCount h \<le> 1))))"

text \<open>
  The first loop of \<open>CloseRound\<close>, over the players in the order \<open>ids\<close>. It either
  returns from \<open>CloseRound\<close> at a chinch\'on (\<open>Inl\<close> of that result) or ends with the
  penalty points of the players that have a hand (\<open>Inr\<close>).
\<close>

fun closeLoop ::
  "int list \<Rightarrow> int list \<Rightarrow> GameState \<Rightarrow> (int \<rightharpoonup> int)
     \<Rightarrow> (error + GameState) + (int \<rightharpoonup> int)" where
  "closeLoop keys [] g penaltyPoints = Inr penaltyPoints"
| "closeLoop keys (playerID # ids) g penaltyPoints =
     (case Players g playerID of
        None \<Rightarrow> Inl (Inl Panic)
      | Some player \<Rightarrow>
          (case Hand player of
             None \<Rightarrow> closeLoop keys ids g penaltyPoints
           | Some h \<Rightarrow>
               if IsChinchon h then
                 Inl (updateRoundLog
                        (g\<lparr>IsGameEnded := True, WinnerPlayerID := playerID,
                           LoserPlayerID := OpponentOf keys playerID\<rparr>)
                        (\<lambda>l. l\<lparr>WasChinchon := True\<rparr>))
               else closeLoop keys ids g
                      (penaltyPoints(playerID \<mapsto> PenaltyPoints h (ValidGroups h)))))"

text \<open>A missing key of \<open>penaltyPoints\<close> reads as 0.\<close>

definition penaltyOf :: "(int \<rightharpoonup> int) \<Rightarrow> int \<Rightarrow> int" where
  "penaltyOf penaltyPoints playerID =
     (case penaltyPoints playerID of None \<Rightarrow> 0 | Some n \<Rightarrow> n)"

text \<open>\<open>for playerID, penalty := range penaltyPoints { g.Players[playerID].Score += penalty }\<close>;
  the keys of \<open>penaltyPoints\<close> are among those of \<open>g.Players\<close>.\<close>

fun normalScoring :: "int list \<Rightarrow> (int \<rightharpoonup> int) \<Rightarrow> GameState \<Rightarrow> error + GameState" where
  "normalScoring [] penaltyPoints g = Inr g"
| "normalScoring (playerID # ids) penaltyPoints g =
     (case penaltyPoints playerID of
        None \<Rightarrow> normalScoring ids penaltyPoints g
      | Some penalty \<Rightarrow>
          bindE (addScore g playerID penalty) (\<lambda>g'. normalScoring ids penaltyPoints g'))"

definition CloseRound :: "int list \<Rightarrow> int list \<Rightarrow> int \<Rightarrow> GameState \<Rightarrow> error + GameState" where
  "CloseRound ids keys closingPlayerID g0 =
     (let g = g0\<lparr>IsRoundFinished := True, CurrentRoundClosedByPlayerID := closingPlayerID\<rparr>
      in case closeLoop keys ids g Map.empty of
           Inl result \<Rightarrow> result
         | Inr penaltyPoints \<Rightarrow>
             (let player0Penalty = penaltyOf penaltyPoints 0;
                  player1Penalty = penaltyOf penaltyPoints 1;
                  (roundWinner, roundLoser) =
                    (if player0Penalty < player1Penalty then (0, 1)
                     else if player1Penalty < player0Penalty then (1, 0)
                     else (-1, -1));
                  scored =
                    (if closingPlayerID \<noteq> -1 \<and> roundWinner = closingPlayerID then
                       (let opponentID = OpponentOf keys closingPlayerID
                        in bindE (addScore g opponentID (penaltyOf penaltyPoints opponentID))
                             (\<lambda>g'. if penaltyOf penaltyPoints closingPlayerID = 0
                                    then addScore g' opponentID 10 else Inr g'))
                     else normalScoring ids penaltyPoints g)
              in bindE scored (\<lambda>g'.
                   updateRoundLog g'
                     (\<lambda>l. l\<lparr>RoundWinnerPlayerID := roundWinner, RoundLoserPlayerID := roundLoser,
                            RoundPenaltyPoints := penaltyPoints,
                            ClosedByPlayerID := closingPlayerID\<rparr>))))"

section \<open>What each action checks and does\<close>

definition confirmed :: "GameState \<Rightarrow> int \<Rightarrow> bool" where
  "confirmed g playerID =
     (case RoundFinishedConfirmedPlayerIDs g playerID of None \<Rightarrow> False | Some b \<Rightarrow> b)"

fun IsPossible :: "Action \<Rightarrow> GameState \<Rightarrow> error + bool" where
  "IsPossible (ActionDrawFromDeck a) g =
     (if IsRoundFinished g \<or> IsGameEnded g then Inr False
      else if PlayerID a \<noteq> TurnPlayerID g then Inr False
      else if HasDrawnCard g then Inr False
      else Inr (\<not> isEmpty (DrawPile g)))"
| "IsPossible (ActionDrawFromDiscard a) g =
     (if IsRoundFinished g \<or> IsGameEnded g then Inr False
      else if PlayerID a \<noteq> TurnPlayerID g then Inr False
      else if HasDrawnCard g then Inr False
      else Inr (length (DiscardPile g) > 0))"
| "IsPossible (ActionDiscardCard a c) g =
     (if IsRoundFinished g \<or> IsGameEnded g then Inr False
      else if PlayerID a \<noteq> TurnPlayerID g then Inr False
      else if \<not> HasDrawnCard g then Inr False
      else bindE (handOf g (PlayerID a)) (\<lambda>h. Inr (HasCard h c)))"
| "IsPossible (ActionClose a) g =
     (if IsRoundFinished g \<or> IsGameEnded g then Inr False
      else if PlayerID a \<noteq> TurnPlayerID g then Inr False
      else if \<not> HasDrawnCard g then Inr False
      else CanClose g (PlayerID a))"
| "IsPossible (ActionConfirmRoundFinished a) g =
     (if \<not> IsRoundFinished g \<or> IsGameEnded g then Inr False
      else Inr (\<not> confirmed g (PlayerID a)))"

fun YieldsTurn :: "Action \<Rightarrow> GameState \<Rightarrow> bool" where
  "YieldsTurn (ActionDrawFromDeck a) g = False"
| "YieldsTurn (ActionDrawFromDiscard a) g = False"
| "YieldsTurn (ActionDiscardCard a c) g = True"
| "YieldsTurn (ActionClose a) g = True"
| "YieldsTurn (ActionConfirmRoundFinished a) g = False"

text \<open>The effect of each action once its own check has passed.\<close>

fun effect :: "Env \<Rightarrow> Action \<Rightarrow> GameState \<Rightarrow> error + GameState" where
  "effect env (ActionDrawFromDeck a) g =
     (case drawCard (DrawPile g) of
        Inl err \<Rightarrow> Inl err
      | Inr (crd, rest) \<Rightarrow>
          bindE (handOf g (PlayerID a)) (\<lambda>h.
          bindE (setHand (g\<lparr>DrawPile := rest\<rparr>) (PlayerID a) (AddCard h crd)) (\<lambda>g'.
          Inr (g'\<lparr>HasDrawnCard := True\<rparr>))))"
| "effect env (ActionDrawFromDiscard a) g =
     (if length (DiscardPile g) = 0 then Inl errDiscardPileEmpty
      else (let crd = last (DiscardPile g)
            in bindE (handOf g (PlayerID a)) (\<lambda>h.
               bindE (setHand (g\<lparr>DiscardPile := butlast (DiscardPile g)\<rparr>) (PlayerID a)
                        (AddCard h crd)) (\<lambda>g'.
               Inr (g'\<lparr>HasDrawnCard := True\<rparr>)))))"
| "effect env (ActionDiscardCard a c) g =
     bindE (handOf g (PlayerID a)) (\<lambda>h.
     bindE (RemoveCard h c) (\<lambda>h'.
     bindE (setHand g (PlayerID a) h') (\<lambda>g'.
     Inr (g'\<lparr>DiscardPile := DiscardPile g' @ [c]\<rparr>))))"
| "effect env (ActionClose a) g = CloseRound (closeRange env) (keyRange env) (PlayerID a) g"
| "effect env (ActionConfirmRoundFinished a) g =
     Inr (g\<lparr>RoundFinishedConfirmedPlayerIDs :=
               (RoundFinishedConfirmedPlayerIDs g)(PlayerID a \<mapsto> True)\<rparr>)"

text \<open>\<open>Run\<close>: every variant starts with \<open>if !a.IsPossible(*g) { return errActionNotPossible }\<close>.\<close>

definition Run :: "Env \<Rightarrow> Action \<Rightarrow> GameState \<Rightarrow> error + GameState" where
  "Run env a g =
     bindE (IsPossible a g) (\<lambda>possible.
       if \<not> possible then Inl errActionNotPossible else effect env a g)"

section \<open>The orchestrator\<close>

text \<open>The priority sweep at the end of \<open>CalculatePossibleActions\<close> (\<open>Enrich\<close> does
  nothing for every variant).\<close>

fun sweep :: "GameState \<Rightarrow> Action list \<Rightarrow> int \<Rightarrow> Action list \<Rightarrow> error + Action list" where
  "sweep g [] priority possibleActions = Inr possibleActions"
| "sweep g (a # as) priority possibleActions =
     bindE (IsPossible a g) (\<lambda>possible.
       if \<not> possible then sweep g as priority possibleActions
       else if GetPriority a < priority then sweep g as priority possibleActions
       else if GetPriority a > priority \<and> \<not> AllowLowerPriority a
            then sweep g as (GetPriority a) ([] @ [a])
       else sweep g as priority (possibleActions @ [a]))"

definition CalculatePossibleActions :: "GameState \<Rightarrow> error + Action list" where
  "CalculatePossibleActions g =
     (let draws =
            (if \<not> HasDrawnCard g \<and> \<not> IsRoundFinished g
             then [NewActionDrawFromDeck (TurnPlayerID g),
                   NewActionDrawFromDiscard (TurnPlayerID g)]
             else [])
      in bindE (if HasDrawnCard g \<and> \<not> IsRoundFinished g
                then bindE (handOf g (TurnPlayerID g))
                       (\<lambda>h. Inr (map (\<lambda>crd. NewActionDiscardCard crd (TurnPlayerID g)) h))
                else Inr []) (\<lambda>discards.
         bindE (CanClose g (TurnPlayerID g)) (\<lambda>canClose.
           (let closes = (if canClose \<and> HasDrawnCard g
                          then [NewActionClose (TurnPlayerID g)] else []);
                confirms = [NewActionConfirmRoundFinished (TurnPlayerID g),
                            NewActionConfirmRoundFinished (TurnOpponentPlayerID g)]
            in sweep g (draws @ discards @ closes @ confirms) 0 []))))"

definition countActionsOfTurnPlayer :: "GameState \<Rightarrow> error + int" where
  "countActionsOfTurnPlayer g =
     bindE (CalculatePossibleActions g) (\<lambda>as.
       Inr (int (length (filter (\<lambda>a. GetPlayerID a = TurnPlayerID g) as))))"

definition changeTurn :: "GameState \<Rightarrow> GameState" where
  "changeTurn g =
     g\<lparr>TurnPlayerID := TurnOpponentPlayerID g, TurnOpponentPlayerID := TurnPlayerID g,
       HasDrawnCard := False\<rparr>"

text \<open>\<open>handsDealt\<close>: a deep copy of every player's hand; a nil hand panics.\<close>

fun handsDealtLoop :: "int list \<Rightarrow> GameState \<Rightarrow> (int \<rightharpoonup> Hand) \<Rightarrow> error + (int \<rightharpoonup> Hand)" where
  "handsDealtLoop [] g handsDealt = Inr handsDealt"
| "handsDealtLoop (playerID # ids) g handsDealt =
     bindE (handOf g playerID) (\<lambda>h. handsDealtLoop ids g (handsDealt(playerID \<mapsto> h)))"

definition startNewRound :: "Env \<Rightarrow> GameState \<Rightarrow> error + GameState" where
  "startNewRound env g0 =
     (let g1 = g0\<lparr>DrawPile := shuffled env, RoundNumber := wrap64 (RoundNumber g0 + 1)\<rparr>;
          turn = (if RoundNumber g1 = 1 then 0 else OpponentOf (keyRange env) (TurnPlayerID g1));
          g2 = g1\<lparr>TurnPlayerID := turn, TurnOpponentPlayerID := OpponentOf (keyRange env) turn\<rparr>;
          (hand0, pile0) = dealHand (DrawPile g2)
      in bindE (setHand (g2\<lparr>DrawPile := pile0\<rparr>) 0 hand0) (\<lambda>g3.
         (let (hand1, pile1) = dealHand (DrawPile g3)
          in bindE (setHand (g3\<lparr>DrawPile := pile1\<rparr>) 1 hand1) (\<lambda>g4.
             (let g5 = (if \<not> isEmpty (DrawPile g4)
                        then (case drawCard (DrawPile g4) of
                                Inl err \<Rightarrow> g4\<lparr>DiscardPile := [\<lparr>Suit = [], Number = 0\<rparr>]\<rparr>
                              | Inr (topCard, rest) \<Rightarrow>
                                  g4\<lparr>DrawPile := rest, DiscardPile := [topCard]\<rparr>)
                        else g4);
                  g6 = g5\<lparr>IsRoundFinished := False, CurrentRoundClosedByPlayerID := -1,
                          RoundFinishedConfirmedPlayerIDs := Map.empty, HasDrawnCard := False\<rparr>
              in bindE (handsDealtLoop (keyRange env) g6 Map.empty) (\<lambda>handsDealt.
                 (let g7 = g6\<lparr>RoundsLog := RoundsLog g6 @
                             [\<lparr>HandsDealt = handsDealt, RoundWinnerPlayerID = -1,
                               RoundLoserPlayerID = -1, RoundPenaltyPoints = Map.empty,
                               ClosedByPlayerID = -1, WasChinchon = False, ActionsLog = []\<rparr>]\<rparr>
                  in bindE (CalculatePossibleActions g7) (\<lambda>as.
                       Inr (g7\<lparr>PossibleActions := serializeActions as\<rparr>)))))))))"

text \<open>The state that \<open>New\<close> builds before the options and the first round; its deck is
  replaced by the shuffle of \<open>startNewRound\<close> before any card is taken from it.\<close>

definition emptyRoundLog :: RoundLog where
  "emptyRoundLog =
     \<lparr>HandsDealt = Map.empty, RoundWinnerPlayerID = 0, RoundLoserPlayerID = 0,
      RoundPenaltyPoints = Map.empty, ClosedByPlayerID = 0, WasChinchon = False,
      ActionsLog = []\<rparr>"

definition initialState :: "Card list \<Rightarrow> GameState" where
  "initialState cards =
     \<lparr>RoundNumber = 0, TurnPlayerID = 0, TurnOpponentPlayerID = 0,
      Players = [0 \<mapsto> \<lparr>Hand = None, Score = 0\<rparr>, 1 \<mapsto> \<lparr>Hand = None, Score = 0\<rparr>],
      DrawPile = cards, DiscardPile = [], PossibleActions = [],
      IsRoundFinished = False, IsGameEnded = False,
      WinnerPlayerID = -1, LoserPlayerID = -1,
      RoundsLog = [emptyRoundLog],
      RoundFinishedConfirmedPlayerIDs = Map.empty,
      RuleMaxPoints = DefaultMaxPoints,
      CurrentRoundClosedByPlayerID = -1, HasDrawnCard = False\<rparr>"

definition New :: "(GameState \<Rightarrow> GameState) list \<Rightarrow> Env \<Rightarrow> error + GameState" where
  "New opts env = startNewRound env (fold (\<lambda>opt gs. opt gs) opts (initialState (shuffled env)))"

text \<open>The loop that ends the game when a score has reached the maximum.\<close>

fun scoreLoop :: "int list \<Rightarrow> int list \<Rightarrow> GameState \<Rightarrow> error + GameState" where
  "scoreLoop keys [] g = Inr g"
| "scoreLoop keys (playerID # ids) g =
     (case Players g playerID of
        None \<Rightarrow> Inl Panic
      | Some p \<Rightarrow>
          if Score p \<ge> RuleMaxPoints g
          then scoreLoop keys ids
                 (g\<lparr>IsGameEnded := True, LoserPlayerID := playerID,
                    WinnerPlayerID := OpponentOf keys playerID\<rparr>)
          else scoreLoop keys ids g)"

definition logAction :: "Action \<Rightarrow> GameState \<Rightarrow> error + GameState" where
  "logAction action g =
     (if GetName action \<noteq> CONFIRM_ROUND_FINISHED
      then updateRoundLog g
             (\<lambda>l. l\<lparr>ActionsLog := ActionsLog l @
                      [\<lparr>LogPlayerID = TurnPlayerID g, LogAction = SerializeAction action\<rparr>]\<rparr>)
      else Inr g)"

text \<open>The end of \<open>RunAction\<close>: the end of the game by score, and the legal moves.\<close>

definition finishAction :: "Env \<Rightarrow> GameState \<Rightarrow> error + GameState" where
  "finishAction env g4 =
     bindE (scoreLoop (keyRange env) (scoreRange env) g4) (\<lambda>g5.
     bindE (CalculatePossibleActions g5) (\<lambda>possibleActions.
     bindE (countActionsOfTurnPlayer g5) (\<lambda>n.
       if n = 0 then
         (let g6 = changeTurn g5
          in bindE (CalculatePossibleActions g6) (\<lambda>possibleActions'.
               Inr (g6\<lparr>PossibleActions := serializeActions possibleActions'\<rparr>)))
       else Inr (g5\<lparr>PossibleActions := serializeActions possibleActions\<rparr>))))"

text \<open>What \<open>RunAction\<close> does after the action has run and has been logged.\<close>

definition afterAction :: "Env \<Rightarrow> Action \<Rightarrow> GameState \<Rightarrow> error + GameState" where
  "afterAction env action g2 =
     (if \<not> IsGameEnded g2 \<and> IsRoundFinished g2
         \<and> card (dom (RoundFinishedConfirmedPlayerIDs g2)) = 2
      then startNewRound env g2
      else
        (let g3 = (if \<not> IsGameEnded g2 \<and> \<not> IsRoundFinished g2 \<and> YieldsTurn action g2
                   then g2\<lparr>TurnPlayerID := TurnOpponentPlayerID g2,
                           TurnOpponentPlayerID := TurnPlayerID g2, HasDrawnCard := False\<rparr>
                   else g2);
             g4 = (if \<not> IsGameEnded g3 \<and> IsRoundFinished g3
                      \<and> card (dom (RoundFinishedConfirmedPlayerIDs g3)) = 1
                   then (if confirmed g3 (TurnPlayerID g3) then changeTurn g3 else g3)
                   else g3)
         in finishAction env g4))"

definition RunAction :: "Env \<Rightarrow> Action option \<Rightarrow> GameState \<Rightarrow> error + GameState" where
  "RunAction env act g =
     (case act of
        None \<Rightarrow> Inr g
      | Some action \<Rightarrow>
          if IsGameEnded g then Inl errGameIsEnded
          else if \<not> IsRoundFinished g \<and> GetPlayerID action \<noteq> TurnPlayerID g
               then Inl errNotYourTurn
          else bindE (IsPossible action g) (\<lambda>possible.
                 if \<not> possible then Inl errActionNotPossible
                 else bindE (Run env action g) (\<lambda>g1.
                      bindE (logAction action g1) (\<lambda>g2. afterAction env action g2))))"

section \<open>The client's view\<close>

record ClientGameState =
  cRoundNumber :: int
  cTurnPlayerID :: int
  YouPlayerID :: int
  ThemPlayerID :: int
  YourScore :: int
  TheirScore :: int
  YourHand :: "Card list"
  TheirHandSize :: int
  TopDiscardCard :: "Card option"
  DrawPileSize :: int
  cPossibleActions :: "json list"
  cIsGameEnded :: bool
  cIsRoundFinished :: bool
  cWinnerPlayerID :: int
  cLoserPlayerID :: int
  LastActionLog :: "ActionLog option"
  cRuleMaxPoints :: int
  cHasDrawnCard :: bool

definition ToClientGameState :: "Env \<Rightarrow> int \<Rightarrow> GameState \<Rightarrow> error + ClientGameState" where
  "ToClientGameState env youPlayerID g =
     (let themPlayerID = OpponentOf (keyRange env) youPlayerID
      in bindE (CalculatePossibleActions g) (\<lambda>as.
         (let filteredPossibleActions = filter (\<lambda>a. GetPlayerID a = youPlayerID) as;
              topDiscardCard = (if length (DiscardPile g) > 0 then Some (last (DiscardPile g))
                                else None)
          in case Players g youPlayerID of
               None \<Rightarrow> Inl Panic
             | Some you \<Rightarrow>
                 (case Players g themPlayerID of
                    None \<Rightarrow> Inl Panic
                  | Some them \<Rightarrow>
                      bindE (handOf g youPlayerID) (\<lambda>yourHand.
                      bindE (handOf g themPlayerID) (\<lambda>theirHand.
                        if 0 \<le> RoundNumber g \<and> nat (RoundNumber g) < length (RoundsLog g) then
                          (let actionsLog = ActionsLog (RoundsLog g ! nat (RoundNumber g))
                           in Inr \<lparr>cRoundNumber = RoundNumber g,
                                   cTurnPlayerID = TurnPlayerID g,
                                   YouPlayerID = youPlayerID,
                                   ThemPlayerID = themPlayerID,
                                   YourScore = Score you,
                                   TheirScore = Score them,
                                   YourHand = yourHand,
                                   TheirHandSize = int (length theirHand),
                                   TopDiscardCard = topDiscardCard,
                                   DrawPileSize = remainingCards (DrawPile g),
                                   cPossibleActions = serializeActions filteredPossibleActions,
                                   cIsGameEnded = IsGameEnded g,
                                   cIsRoundFinished = IsRoundFinished g,
                                   cWinnerPlayerID = WinnerPlayerID g,
                                   cLoserPlayerID = LoserPlayerID g,
                                   LastActionLog = (if length actionsLog > 0
                                                    then Some (last actionsLog) else None),
                                   cRuleMaxPoints = RuleMaxPoints g,
                                   cHasDrawnCard = HasDrawnCard g\<rparr>)
                        else Inl Panic))))))"

section \<open>Invariants of the states of a game\<close>

text \<open>The candidates that \<open>CalculatePossibleActions\<close> filters, for a turn player with hand \<open>h\<close>;
  \<open>table g ht ho\<close>: a round is on, with the hands of the turn player and of the opponent,
  no score yet and every card of the deck in one place; \<open>inv\<close> adds the sizes of the hands, and
  \<open>mid\<close> is the state between the effect of an action and the end of \<open>RunAction\<close>.\<close>

definition candidates :: "GameState \<Rightarrow> Hand \<Rightarrow> Action list" where
  "candidates g h =
     (if \<not> HasDrawnCard g \<and> \<not> IsRoundFinished g
      then [NewActionDrawFromDeck (TurnPlayerID g), NewActionDrawFromDiscard (TurnPlayerID g)]
      else [])
     @ (if HasDrawnCard g \<and> \<not> IsRoundFinished g
        then map (\<lambda>crd. NewActionDiscardCard crd (TurnPlayerID g)) h else [])
     @ (if CanClose g (TurnPlayerID g) = Inr True \<and> HasDrawnCard g
        then [NewActionClose (TurnPlayerID g)] else [])
     @ [NewActionConfirmRoundFinished (TurnPlayerID g),
        NewActionConfirmRoundFinished (TurnOpponentPlayerID g)]"

definition table :: "GameState \<Rightarrow> Hand \<Rightarrow> Hand \<Rightarrow> bool" where
  "table g ht ho =
     (\<exists>pt po. Players g (TurnPlayerID g) = Some pt \<and> Players g (TurnOpponentPlayerID g) = Some po
        \<and> Hand pt = Some ht \<and> Hand po = Some ho \<and> Score pt = 0 \<and> Score po = 0
        \<and> dom (Players g) = {0, 1}
        \<and> (TurnPlayerID g = 0 \<and> TurnOpponentPlayerID g = 1
            \<or> TurnPlayerID g = 1 \<and> TurnOpponentPlayerID g = 0)
        \<and> \<not> IsRoundFinished g \<and> RoundNumber g = 1 \<and> length (RoundsLog g) = 2
        \<and> (IsGameEnded g \<longrightarrow> RuleMaxPoints g \<le> 0)
        \<and> mset (DrawPile g) + mset (DiscardPile g) + mset ht + mset ho = mset unshuffledCards)"

definition inv :: "GameState \<Rightarrow> bool" where
  "inv g =
     (\<exists>ht ho. table g ht ho \<and> (IsGameEnded g \<longrightarrow> \<not> HasDrawnCard g)
        \<and> (\<not> IsGameEnded g \<longrightarrow>
              length ho = 7 \<and> length ht = (if HasDrawnCard g then 8 else 7)
              \<and> (\<not> HasDrawnCard g \<longrightarrow> DiscardPile g \<noteq> [])))"

definition mid :: "Action \<Rightarrow> GameState \<Rightarrow> bool" where
  "mid a g =
     (\<exists>ht ho. table g ht ho \<and> \<not> IsGameEnded g \<and> HasDrawnCard g \<and> length ho = 7
        \<and> (if YieldsTurn a g then length ht = 7 \<and> DiscardPile g \<noteq> [] else length ht = 8))"

text \<open>The reachable states: the result of \<open>New\<close> with any options built by
  \<open>WithMaxPoints\<close>, and the result of every successful \<open>RunAction\<close> on a reachable state,
  for every shuffle and every order of the map loops.\<close>

inductive reachable :: "GameState \<Rightarrow> bool" where
  reach_New:
    "validEnv env (initialState (shuffled env)) \<Longrightarrow> set opts \<subseteq> range WithMaxPoints
       \<Longrightarrow> New opts env = Inr g \<Longrightarrow> reachable g"
| reach_RunAction:
    "reachable g \<Longrightarrow> validEnv env g \<Longrightarrow> RunAction env a g = Inr g' \<Longrightarrow> reachable g'"

text \<open>Example games: \<open>New()\<close> on the deck in the order the loops build it, a draw from
  the discard pile in it; \<open>New(WithMaxPoints(0))\<close> on the same deck, and a draw from the
  deck in it.\<close>

definition exampleEnv :: Env where
  "exampleEnv = \<lparr>shuffled = unshuffledCards, closeRange = [0, 1], scoreRange = [0, 1],
                 keyRange = [0, 1]\<rparr>"

definition exampleGame :: GameState where
  "exampleGame = projr (New [] exampleEnv)"

definition exampleDrawn :: GameState where
  "exampleDrawn = projr (RunAction exampleEnv (Some (NewActionDrawFromDiscard 0)) exampleGame)"

definition exampleZero :: GameState where
  "exampleZero = projr (New [WithMaxPoints 0] exampleEnv)"

definition exampleEnded :: GameState where
  "exampleEnded = projr (RunAction exampleEnv (Some (NewActionDrawFromDeck 0)) exampleZero)"

text \<open>A state as \<open>New\<close> and \<open>RunAction\<close> leave it: two players with their hands, a turn player,
  a round log for the current round; and orders of the map loops that fit.\<close>

definition wellFormed :: "Env \<Rightarrow> GameState \<Rightarrow> bool" where
  "wellFormed env g =
     (dom (Players g) = {0, 1} \<and> (\<exists>h0 h1. handOf g 0 = Inr h0 \<and> handOf g 1 = Inr h1)
      \<and> (TurnPlayerID g = 0 \<or> TurnPlayerID g = 1)
      \<and> 0 \<le> RoundNumber g \<and> nat (RoundNumber g) < length (RoundsLog g)
      \<and> enumerates (closeRange env) (Players g) \<and> enumerates (keyRange env) (Players g))"

section \<open>Properties\<close>

lemma groupedCards_iff: "groupedCards groups c \<longleftrightarrow> c \<in> set (concat groups)"
proof -
  have inner: "fold (\<lambda>crd m'. m'(crd := True)) g m c \<longleftrightarrow> m c \<or> c \<in> set g" for g m
    by (induction g arbitrary: m) auto
  have outer: "fold (\<lambda>group m. fold (\<lambda>crd m'. m'(crd := True)) group m) gs m c
                 \<longleftrightarrow> m c \<or> c \<in> set (concat gs)" for gs m
    by (induction gs arbitrary: m) (auto simp: inner)
  show ?thesis by (simp add: groupedCards_def outer)
qed

lemma wrap64_id: "int64 n \<Longrightarrow> wrap64 n = n"
  by (simp add: int64_def wrap64_def)

lemma wrap64_wrap64_add: "wrap64 (wrap64 a + b) = wrap64 (a + b)"
proof -
  have "(((a + 2 ^ 63) mod 2 ^ 64 - 2 ^ 63) + b + 2 ^ 63) mod 2 ^ 64
          = ((a + 2 ^ 63) mod 2 ^ 64 + b) mod (2 ^ 64 :: int)"
    by (simp add: algebra_simps)
  also have "\<dots> = (a + 2 ^ 63 + b) mod 2 ^ 64"
    by (simp add: mod_add_left_eq)
  finally show ?thesis by (simp add: wrap64_def algebra_simps)
qed

lemma fold_penalty:
  "fold (\<lambda>crd penalty. if P crd then wrap64 (penalty + f crd) else penalty) h (wrap64 a)
     = wrap64 (a + sum_list (map f (filter P h)))"
proof (induction h arbitrary: a)
  case Nil
  then show ?case by simp
next
  case (Cons c h)
  show ?case
  proof (cases "P c")
    case True
    have "fold (\<lambda>crd penalty. if P crd then wrap64 (penalty + f crd) else penalty) (c # h)
            (wrap64 a)
          = fold (\<lambda>crd penalty. if P crd then wrap64 (penalty + f crd) else penalty) h
              (wrap64 (a + f c))"
      using True by (simp add: wrap64_wrap64_add)
    then show ?thesis using True Cons.IH [of "a + f c"] by (simp add: add.assoc)
  next
    case False
    then show ?thesis using Cons.IH [of a] by simp
  qed
qed

lemma penalty_sum_bounds:
  assumes "\<And>c. c \<in> set h \<Longrightarrow> 1 \<le> Number c \<and> Number c \<le> 12"
  shows "0 \<le> sum_list (map (\<lambda>c. if Number c < 10 then Number c else 10) (filter P h))
       \<and> sum_list (map (\<lambda>c. if Number c < 10 then Number c else 10) (filter P h))
           \<le> 10 * int (length h)"
  using assms
proof (induction h)
  case Nil
  then show ?case by simp
next
  case (Cons a h)
  have a: "1 \<le> Number a" "Number a \<le> 12" using Cons.prems by auto
  have "0 \<le> sum_list (map (\<lambda>c. if Number c < 10 then Number c else 10) (filter P h))
       \<and> sum_list (map (\<lambda>c. if Number c < 10 then Number c else 10) (filter P h))
           \<le> 10 * int (length h)"
    using Cons.IH Cons.prems by simp
  with a show ?case by auto
qed

text \<open>
  Claim C9. For every hand and every list of groups, \<open>PenaltyPoints\<close> is the sum of the
  penalty values of the cards of the hand that lie in no group of the list, a card's
  penalty value being its number when that is below 10 and 10 otherwise; a card lying
  in one or several groups contributes nothing. The sum is the sum of Go's \<open>int\<close>: it
  wraps around at 64 bits (first part, for every hand). For a hand of cards of the deck
  (numbers 1 to 12) short enough for the sum to fit, it is the sum of the integers
  (second part).
\<close>

theorem C9_penalty_points:
  "PenaltyPoints h groups
     = wrap64 (sum_list (map (\<lambda>c. if Number c < 10 then Number c else 10)
                             (filter (\<lambda>c. c \<notin> set (concat groups)) h)))
   \<and> ((\<forall>c \<in> set h. 1 \<le> Number c \<and> Number c \<le> 12) \<and> 10 * int (length h) < 2 ^ 63
        \<longrightarrow> PenaltyPoints h groups
              = sum_list (map (\<lambda>c. if Number c < 10 then Number c else 10)
                              (filter (\<lambda>c. c \<notin> set (concat groups)) h)))"
proof -
  let ?s = "sum_list (map (\<lambda>c. if Number c < 10 then Number c else 10)
                          (filter (\<lambda>c. c \<notin> set (concat groups)) h))"
  have pv: "PenaltyValue = (\<lambda>c. if Number c < 10 then Number c else 10)"
    by (auto simp: PenaltyValue_def fun_eq_iff)
  have z: "wrap64 0 = 0" by (simp add: wrap64_def)
  have eq: "PenaltyPoints h groups = wrap64 ?s"
    unfolding PenaltyPoints_def
    using fold_penalty [of "\<lambda>c. \<not> groupedCards groups c" PenaltyValue h 0]
    by (simp add: z groupedCards_iff pv)
  have "wrap64 ?s = ?s"
    if "\<forall>c \<in> set h. 1 \<le> Number c \<and> Number c \<le> 12" and "10 * int (length h) < 2 ^ 63"
  proof -
    have "0 \<le> ?s \<and> ?s \<le> 10 * int (length h)"
      using that(1) by (intro penalty_sum_bounds) auto
    then have "int64 ?s" using that(2) by (simp add: int64_def)
    then show ?thesis by (rule wrap64_id)
  qed
  with eq show ?thesis by simp
qed

text \<open>The hand 3 of oro, 11 of copa, 5 of basto with the 3 of oro in a group: 10 + 5.\<close>

theorem C9_penalty_points_witness:
  "set (map Number [\<lparr>Suit = ''oro'', Number = 3\<rparr>, \<lparr>Suit = ''copa'', Number = 11\<rparr>,
                    \<lparr>Suit = ''basto'', Number = 5\<rparr>]) \<subseteq> {1..12}
   \<and> PenaltyPoints [\<lparr>Suit = ''oro'', Number = 3\<rparr>, \<lparr>Suit = ''copa'', Number = 11\<rparr>,
                     \<lparr>Suit = ''basto'', Number = 5\<rparr>] [[\<lparr>Suit = ''oro'', Number = 3\<rparr>]] = 15"
  using C9_penalty_points [of "[\<lparr>Suit = ''oro'', Number = 3\<rparr>, \<lparr>Suit = ''copa'', Number = 11\<rparr>,
                     \<lparr>Suit = ''basto'', Number = 5\<rparr>]" "[[\<lparr>Suit = ''oro'', Number = 3\<rparr>]]"]
  by simp

section \<open>Steps of the game keep the invariant\<close>

lemma bindE_simps [simp]:
  "bindE (Inl e) f = Inl e" "bindE (Inr x) f = f x"
  by (simp_all add: bindE_def)

lemma bindE_eq_Inr: "bindE m f = Inr y \<longleftrightarrow> (\<exists>x. m = Inr x \<and> f x = Inr y)"
  by (cases m) auto

lemma handOf_Inr: "handOf g pid = Inr h \<longleftrightarrow> (\<exists>p. Players g pid = Some p \<and> Hand p = Some h)"
  by (auto simp: handOf_def split: option.splits)

lemma CanClose_total:
  "handOf g pid = Inr h \<Longrightarrow> \<exists>b. CanClose g pid = Inr b"
  by (auto simp: CanClose_def handOf_Inr)

lemma IsPossible_total:
  assumes "handOf g (TurnPlayerID g) = Inr h"
  shows "\<exists>b. IsPossible a g = Inr b"
  using assms CanClose_total [OF assms]
  by (cases a) auto

lemma sweep_filter:
  assumes "\<And>a. a \<in> set as \<Longrightarrow> \<exists>b. IsPossible a g = Inr b"
  shows "sweep g as 0 acc = Inr (acc @ filter (\<lambda>a. IsPossible a g = Inr True) as)"
  using assms
proof (induction as arbitrary: acc)
  case Nil
  then show ?case by simp
next
  case (Cons a as)
  obtain b where b: "IsPossible a g = Inr b" using Cons.prems by auto
  show ?case using Cons b by (simp add: GetPriority_def AllowLowerPriority_def)
qed

lemma Calculate_ok:
  assumes "handOf g (TurnPlayerID g) = Inr h"
  shows "CalculatePossibleActions g
           = Inr (filter (\<lambda>a. IsPossible a g = Inr True) (candidates g h))"
proof -
  obtain b where b: "CanClose g (TurnPlayerID g) = Inr b"
    using CanClose_total [OF assms] by auto
  have tot: "\<And>a as. a \<in> set as \<Longrightarrow> \<exists>b. IsPossible a g = Inr b"
    using IsPossible_total [OF assms] by auto
  show ?thesis
    unfolding CalculatePossibleActions_def candidates_def Let_def
    using assms b by (simp add: sweep_filter [OF tot])
qed

lemma RemoveCard_Inr:
  "RemoveCard h c = Inr h' \<Longrightarrow> mset h = add_mset c (mset h') \<and> length h = Suc (length h')"
  by (induction h arbitrary: h') (auto split: if_splits sum.splits)

lemma HasCard_iff: "HasCard h c \<longleftrightarrow> c \<in> set h"
  by (induction h) auto

lemma RemoveCard_ok: "HasCard h c \<Longrightarrow> \<exists>h'. RemoveCard h c = Inr h'"
  by (induction h) (auto split: sum.splits if_splits)

lemma Run_DrawFromDeck_Inr:
  assumes "Run env (ActionDrawFromDeck ac) g = Inr g1"
  obtains c rest p h where "DrawPile g = c # rest" "Players g (PlayerID ac) = Some p"
    "Hand p = Some h" "PlayerID ac = TurnPlayerID g" "\<not> HasDrawnCard g"
    "g1 = g\<lparr>DrawPile := rest,
             Players := (Players g)(PlayerID ac \<mapsto> p\<lparr>Hand := Some (h @ [c])\<rparr>),
             HasDrawnCard := True\<rparr>"
  using assms
  by (auto simp: Run_def bindE_eq_Inr handOf_Inr setHand_def drawCard_def AddCard_def
      split: if_splits list.splits)

lemma Run_DrawFromDiscard_Inr:
  assumes "Run env (ActionDrawFromDiscard ac) g = Inr g1"
  obtains p h where "DiscardPile g \<noteq> []" "Players g (PlayerID ac) = Some p"
    "Hand p = Some h" "PlayerID ac = TurnPlayerID g" "\<not> HasDrawnCard g"
    "g1 = g\<lparr>DiscardPile := butlast (DiscardPile g),
             Players := (Players g)(PlayerID ac \<mapsto> p\<lparr>Hand := Some (h @ [last (DiscardPile g)])\<rparr>),
             HasDrawnCard := True\<rparr>"
  using assms
  by (auto simp: Run_def bindE_eq_Inr handOf_Inr setHand_def AddCard_def Let_def
      split: if_splits)

lemma Run_DiscardCard_Inr:
  assumes "Run env (ActionDiscardCard ac c) g = Inr g1"
  obtains p h h' where "RemoveCard h c = Inr h'" "Players g (PlayerID ac) = Some p"
    "Hand p = Some h" "PlayerID ac = TurnPlayerID g" "HasDrawnCard g"
    "g1 = g\<lparr>Players := (Players g)(PlayerID ac \<mapsto> p\<lparr>Hand := Some h'\<rparr>),
             DiscardPile := DiscardPile g @ [c]\<rparr>"
  using assms
  by (auto simp: Run_def bindE_eq_Inr handOf_Inr setHand_def
      split: if_splits)

lemma logAction_Inr:
  assumes "logAction a g1 = Inr g2"
  obtains l where "g2 = g1\<lparr>RoundsLog := l\<rparr>" "length l = length (RoundsLog g1)"
proof (cases "GetName a \<noteq> CONFIRM_ROUND_FINISHED")
  case True
  with assms that show ?thesis
    by (auto simp: logAction_def updateRoundLog_def split: if_splits)
next
  case False
  with assms have "g2 = g1\<lparr>RoundsLog := RoundsLog g1\<rparr>" by (simp add: logAction_def)
  with that show ?thesis by blast
qed

lemma step_draw_deck:
  assumes "inv g" "\<not> IsGameEnded g"
    and "Run env (ActionDrawFromDeck ac) g = Inr g1"
    and "logAction (ActionDrawFromDeck ac) g1 = Inr g2"
  shows "mid (ActionDrawFromDeck ac) g2"
proof -
  from assms(3) obtain c rest p h where r: "DrawPile g = c # rest"
    "Players g (PlayerID ac) = Some p" "Hand p = Some h" "PlayerID ac = TurnPlayerID g"
    "\<not> HasDrawnCard g"
    "g1 = g\<lparr>DrawPile := rest,
             Players := (Players g)(PlayerID ac \<mapsto> p\<lparr>Hand := Some (h @ [c])\<rparr>),
             HasDrawnCard := True\<rparr>"
    by (rule Run_DrawFromDeck_Inr)
  from assms(4) obtain l where l: "g2 = g1\<lparr>RoundsLog := l\<rparr>" "length l = length (RoundsLog g1)"
    by (rule logAction_Inr)
  from assms(1,2) obtain ht ho where t: "table g ht ho" "length ho = 7"
    "length ht = (if HasDrawnCard g then 8 else 7)"
    by (auto simp: inv_def)
  have "table g2 (ht @ [c]) ho"
    using t(1) r l unfolding table_def by auto
  then show ?thesis
    unfolding mid_def
    by (intro exI [of _ "ht @ [c]"] exI [of _ ho]) (use t r l assms(2) in simp)
qed

lemma mset_butlast_last: "xs \<noteq> [] \<Longrightarrow> add_mset (last xs) (mset (butlast xs)) = mset xs"
  by (induction xs) auto

lemma step_draw_discard:
  assumes "inv g" "\<not> IsGameEnded g"
    and "Run env (ActionDrawFromDiscard ac) g = Inr g1"
    and "logAction (ActionDrawFromDiscard ac) g1 = Inr g2"
  shows "mid (ActionDrawFromDiscard ac) g2"
proof -
  from assms(3) obtain p h where r: "DiscardPile g \<noteq> []"
    "Players g (PlayerID ac) = Some p" "Hand p = Some h" "PlayerID ac = TurnPlayerID g"
    "\<not> HasDrawnCard g"
    "g1 = g\<lparr>DiscardPile := butlast (DiscardPile g),
             Players := (Players g)(PlayerID ac \<mapsto> p\<lparr>Hand := Some (h @ [last (DiscardPile g)])\<rparr>),
             HasDrawnCard := True\<rparr>"
    by (rule Run_DrawFromDiscard_Inr)
  from assms(4) obtain l where l: "g2 = g1\<lparr>RoundsLog := l\<rparr>" "length l = length (RoundsLog g1)"
    by (rule logAction_Inr)
  from assms(1,2) obtain ht ho where t: "table g ht ho" "length ho = 7"
    "length ht = (if HasDrawnCard g then 8 else 7)"
    by (auto simp: inv_def)
  have m: "mset (DiscardPile g) = add_mset (last (DiscardPile g)) (mset (butlast (DiscardPile g)))"
    using r(1) by (simp add: mset_butlast_last)
  have "table g2 (ht @ [last (DiscardPile g)]) ho"
    using t(1) r l unfolding table_def by (auto simp: m)
  then show ?thesis
    unfolding mid_def
    by (intro exI [of _ "ht @ [last (DiscardPile g)]"] exI [of _ ho]) (use t r l assms(2) in simp)
qed

lemma step_discard:
  assumes "inv g" "\<not> IsGameEnded g"
    and "Run env (ActionDiscardCard ac c) g = Inr g1"
    and "logAction (ActionDiscardCard ac c) g1 = Inr g2"
  shows "mid (ActionDiscardCard ac c) g2"
proof -
  from assms(3) obtain p h h' where r: "RemoveCard h c = Inr h'"
    "Players g (PlayerID ac) = Some p"
    "Hand p = Some h" "PlayerID ac = TurnPlayerID g" "HasDrawnCard g"
    "g1 = g\<lparr>Players := (Players g)(PlayerID ac \<mapsto> p\<lparr>Hand := Some h'\<rparr>),
             DiscardPile := DiscardPile g @ [c]\<rparr>"
    by (rule Run_DiscardCard_Inr)
  from assms(4) obtain l where l: "g2 = g1\<lparr>RoundsLog := l\<rparr>" "length l = length (RoundsLog g1)"
    by (rule logAction_Inr)
  from assms(1,2) obtain ht ho where t: "table g ht ho" "length ho = 7"
    "length ht = (if HasDrawnCard g then 8 else 7)"
    by (auto simp: inv_def)
  have hh: "h = ht" using t(1) r by (auto simp: table_def)
  have m: "mset ht = add_mset c (mset h')" "length ht = Suc (length h')"
    using RemoveCard_Inr [OF r(1)] hh by auto
  have "table g2 h' ho"
    using t(1) r l unfolding table_def by (auto simp: m)
  then show ?thesis
    unfolding mid_def
    by (intro exI [of _ h'] exI [of _ ho]) (use t r l m assms(2) in simp)
qed

lemma close_impossible:
  assumes "inv g"
  shows "IsPossible (ActionClose ac) g = Inr False"
proof -
  from assms obtain ht ho where t: "table g ht ho"
    "\<not> IsGameEnded g \<longrightarrow> length ht = (if HasDrawnCard g then 8 else 7)"
    by (auto simp: inv_def)
  then show ?thesis
    by (auto simp: table_def CanClose_def)
qed

lemma confirm_impossible:
  assumes "inv g"
  shows "IsPossible (ActionConfirmRoundFinished ac) g = Inr False"
  using assms by (auto simp: inv_def table_def)

lemma ended_impossible: "IsGameEnded g \<Longrightarrow> IsPossible a g = Inr False"
  by (cases a) auto

lemma scoreLoop_shape:
  assumes "\<And>pid. pid \<in> set ids \<Longrightarrow> \<exists>p. Players g pid = Some p \<and> Score p = 0"
  shows "\<exists>e l w. scoreLoop keys ids g
                   = Inr (g\<lparr>IsGameEnded := e, LoserPlayerID := l, WinnerPlayerID := w\<rparr>)
               \<and> (e \<longleftrightarrow> IsGameEnded g \<or> (ids \<noteq> [] \<and> RuleMaxPoints g \<le> 0))"
  using assms
proof (induction ids arbitrary: g)
  case Nil
  have "g = g\<lparr>IsGameEnded := IsGameEnded g, LoserPlayerID := LoserPlayerID g,
              WinnerPlayerID := WinnerPlayerID g\<rparr>" by simp
  then show ?case by (metis scoreLoop.simps(1))
next
  case (Cons pid ids)
  obtain p where p: "Players g pid = Some p" "Score p = 0" using Cons.prems by auto
  show ?case
  proof (cases "RuleMaxPoints g \<le> 0")
    case True
    let ?g = "g\<lparr>IsGameEnded := True, LoserPlayerID := pid, WinnerPlayerID := OpponentOf keys pid\<rparr>"
    have "\<And>q. q \<in> set ids \<Longrightarrow> \<exists>p. Players ?g q = Some p \<and> Score p = 0"
      using Cons.prems by simp
    from Cons.IH [OF this] obtain e l w where
      "scoreLoop keys ids ?g = Inr (?g\<lparr>IsGameEnded := e, LoserPlayerID := l, WinnerPlayerID := w\<rparr>)"
      "e \<longleftrightarrow> IsGameEnded ?g \<or> (ids \<noteq> [] \<and> RuleMaxPoints ?g \<le> 0)"
      by blast
    then show ?thesis using p True by auto
  next
    case False
    have "\<And>q. q \<in> set ids \<Longrightarrow> \<exists>p. Players g q = Some p \<and> Score p = 0"
      using Cons.prems by simp
    from Cons.IH [OF this] obtain e l w where
      "scoreLoop keys ids g = Inr (g\<lparr>IsGameEnded := e, LoserPlayerID := l, WinnerPlayerID := w\<rparr>)"
      "e \<longleftrightarrow> IsGameEnded g \<or> (ids \<noteq> [] \<and> RuleMaxPoints g \<le> 0)"
      by blast
    then show ?thesis using p False by auto
  qed
qed

lemma table_handOf:
  "table g ht ho \<Longrightarrow> handOf g (TurnPlayerID g) = Inr ht \<and> handOf g (TurnOpponentPlayerID g) = Inr ho"
  by (auto simp: table_def handOf_def)

lemma filter_filter_nonempty:
  "x \<in> set xs \<Longrightarrow> P x \<Longrightarrow> Q x \<Longrightarrow> filter Q (filter P xs) \<noteq> []"
  by (auto simp: filter_empty_conv)

lemma turn_has_action:
  assumes "table g ht ho" "\<not> IsGameEnded g" "HasDrawnCard g \<longrightarrow> ht \<noteq> []"
    "\<not> HasDrawnCard g \<longrightarrow> DiscardPile g \<noteq> []"
  shows "filter (\<lambda>a. GetPlayerID a = TurnPlayerID g)
           (filter (\<lambda>a. IsPossible a g = Inr True) (candidates g ht)) \<noteq> []"
proof (cases "HasDrawnCard g")
  case True
  then obtain c cs where c: "ht = c # cs" using assms(3) by (cases ht) auto
  let ?a = "NewActionDiscardCard c (TurnPlayerID g)"
  have "?a \<in> set (candidates g ht)"
    using True assms(1) c by (auto simp: candidates_def table_def)
  moreover have "IsPossible ?a g = Inr True"
    using True assms(1,2) table_handOf [OF assms(1)] c
    by (auto simp: NewActionDiscardCard_def table_def)
  moreover have "GetPlayerID ?a = TurnPlayerID g"
    by (simp add: NewActionDiscardCard_def GetPlayerID_def)
  ultimately show ?thesis
    by (rule filter_filter_nonempty)
next
  case False
  let ?a = "NewActionDrawFromDiscard (TurnPlayerID g)"
  have "?a \<in> set (candidates g ht)"
    using False assms(1) by (auto simp: candidates_def table_def)
  moreover have "IsPossible ?a g = Inr True"
    using False assms(1,2,4) by (auto simp: NewActionDrawFromDiscard_def table_def)
  moreover have "GetPlayerID ?a = TurnPlayerID g"
    by (simp add: NewActionDrawFromDiscard_def GetPlayerID_def)
  ultimately show ?thesis
    by (rule filter_filter_nonempty)
qed

text \<open>The part of \<open>RunAction\<close> after the turn switch, on a state where the round is on.\<close>

lemma finish_inv:
  assumes t: "table g ht ho" and ne: "\<not> IsGameEnded g"
    and sz: "length ho = 7" "length ht = (if HasDrawnCard g then 8 else 7)"
      "\<not> HasDrawnCard g \<longrightarrow> DiscardPile g \<noteq> []"
    and en: "enumerates (scoreRange env) (Players g)"
    and res: "finishAction env g = Inr g'"
  shows "inv g'"
proof -
  define ids where "ids = scoreRange env"
  define keys where "keys = keyRange env"
  have res': "bindE (scoreLoop keys ids g) (\<lambda>g5.
            bindE (CalculatePossibleActions g5) (\<lambda>possibleActions.
            bindE (countActionsOfTurnPlayer g5) (\<lambda>n.
              if n = 0 then
                (let g6 = changeTurn g5
                 in bindE (CalculatePossibleActions g6) (\<lambda>possibleActions'.
                      Inr (g6\<lparr>PossibleActions := serializeActions possibleActions'\<rparr>)))
              else Inr (g5\<lparr>PossibleActions := serializeActions possibleActions\<rparr>)))) = Inr g'"
    using res by (simp add: finishAction_def ids_def keys_def)
  have ids: "set ids = {0, 1}" "ids \<noteq> []" using en t by (auto simp: enumerates_def table_def ids_def)
  have "\<exists>p. Players g pid = Some p \<and> Score p = 0" if "pid \<in> set ids" for pid
    using ids t that by (auto simp: table_def)
  from scoreLoop_shape [of ids g keys, OF this] obtain e l w where
    sl: "scoreLoop keys ids g = Inr (g\<lparr>IsGameEnded := e, LoserPlayerID := l, WinnerPlayerID := w\<rparr>)"
    and e: "e \<longleftrightarrow> RuleMaxPoints g \<le> 0"
    using ne ids(2) by auto
  define g5 where "g5 = g\<lparr>IsGameEnded := e, LoserPlayerID := l, WinnerPlayerID := w\<rparr>"
  have t5: "table g5 ht ho" using t e by (auto simp: table_def g5_def)
  have c5: "CalculatePossibleActions g5
              = Inr (filter (\<lambda>a. IsPossible a g5 = Inr True) (candidates g5 ht))"
    using Calculate_ok table_handOf [OF t5] by blast
  show ?thesis
  proof (cases e)
    case True
    then have ended: "IsGameEnded g5" by (simp add: g5_def)
    have none: "CalculatePossibleActions g5 = Inr []"
      using c5 ended_impossible [OF ended] by simp
    define g6 where "g6 = changeTurn g5"
    have t6: "table g6 ho ht" using t5 by (auto simp: table_def g6_def changeTurn_def add.commute add.left_commute)
    have ended6: "IsGameEnded g6" using ended by (simp add: g6_def changeTurn_def)
    have c6: "CalculatePossibleActions g6 = Inr []"
      using Calculate_ok [of g6 ho] table_handOf [OF t6] ended_impossible [OF ended6] by simp
    have "g' = g6\<lparr>PossibleActions := serializeActions []\<rparr>"
      using res' sl none c6 by (simp add: g5_def [symmetric] countActionsOfTurnPlayer_def g6_def [symmetric])
    moreover have "table (g6\<lparr>PossibleActions := serializeActions []\<rparr>) ho ht"
      using t6 by (simp add: table_def)
    ultimately show ?thesis
      unfolding inv_def using ended6 by (intro exI [of _ ho] exI [of _ ht]) (simp add: g6_def changeTurn_def)
  next
    case False
    then have ne5: "\<not> IsGameEnded g5" by (simp add: g5_def)
    have "HasDrawnCard g5 \<longrightarrow> ht \<noteq> []" "\<not> HasDrawnCard g5 \<longrightarrow> DiscardPile g5 \<noteq> []"
      using sz by (auto simp: g5_def)
    from turn_has_action [OF t5 ne5 this]
    have n: "int (length (filter (\<lambda>a. GetPlayerID a = TurnPlayerID g5)
               (filter (\<lambda>a. IsPossible a g5 = Inr True) (candidates g5 ht)))) \<noteq> 0"
      by simp
    have "g' = g5\<lparr>PossibleActions := serializeActions
                  (filter (\<lambda>a. IsPossible a g5 = Inr True) (candidates g5 ht))\<rparr>"
      using res' sl c5 n by (simp add: g5_def [symmetric] countActionsOfTurnPlayer_def)
    moreover have "table (g5\<lparr>PossibleActions := x\<rparr>) ht ho" for x
      using t5 by (simp add: table_def)
    ultimately show ?thesis
      unfolding inv_def using ne5 sz by (intro exI [of _ ht] exI [of _ ho]) (simp add: g5_def)
  qed
qed

lemma afterAction_inv:
  assumes m: "mid a g2" and en: "enumerates (scoreRange env) (Players g2)"
    and res: "afterAction env a g2 = Inr g'"
  shows "inv g'"
proof -
  from m obtain ht ho where t: "table g2 ht ho" and ne: "\<not> IsGameEnded g2"
    and hd: "HasDrawnCard g2" and ho: "length ho = 7"
    and c: "if YieldsTurn a g2 then length ht = 7 \<and> DiscardPile g2 \<noteq> [] else length ht = 8"
    by (auto simp: mid_def)
  have nf: "\<not> IsRoundFinished g2" using t by (auto simp: table_def)
  show ?thesis
  proof (cases "YieldsTurn a g2")
    case True
    define g3 where "g3 = g2\<lparr>TurnPlayerID := TurnOpponentPlayerID g2,
                           TurnOpponentPlayerID := TurnPlayerID g2, HasDrawnCard := False\<rparr>"
    have r: "finishAction env g3 = Inr g'"
      using res ne nf True by (simp add: afterAction_def g3_def)
    have t3: "table g3 ho ht"
      using t by (auto simp: table_def g3_def add.commute add.left_commute)
    show ?thesis
      by (rule finish_inv [OF t3 _ _ _ _ _ r]) (use True c ho ne en in \<open>simp_all add: g3_def\<close>)
  next
    case False
    have r: "finishAction env g2 = Inr g'"
      using res ne nf False by (simp add: afterAction_def)
    show ?thesis
      by (rule finish_inv [OF t ne _ _ _ en r]) (use False c ho hd in simp_all)
  qed
qed

lemma mid_dom: "mid a g \<Longrightarrow> dom (Players g) = {0, 1}"
  by (auto simp: mid_def table_def)

lemma inv_dom: "inv g \<Longrightarrow> dom (Players g) = {0, 1}"
  by (auto simp: inv_def table_def)

lemma RunAction_inv:
  assumes i: "inv g" and v: "validEnv env g" and r: "RunAction env a g = Inr g'"
  shows "inv g'"
proof (cases a)
  case None
  with r i show ?thesis by (simp add: RunAction_def)
next
  case (Some action)
  have ne: "\<not> IsGameEnded g" using r Some by (auto simp: RunAction_def split: if_splits)
  from r Some ne obtain g1 g2 where
    run: "Run env action g = Inr g1" and lg: "logAction action g1 = Inr g2"
    and aa: "afterAction env action g2 = Inr g'" and p: "IsPossible action g = Inr True"
    by (auto simp: RunAction_def bindE_eq_Inr split: if_splits)
  have m: "mid action g2"
  proof (cases action)
    case (ActionDrawFromDeck ac)
    then show ?thesis using step_draw_deck [OF i ne] run lg by simp
  next
    case (ActionDrawFromDiscard ac)
    then show ?thesis using step_draw_discard [OF i ne] run lg by simp
  next
    case (ActionDiscardCard ac c)
    then show ?thesis using step_discard [OF i ne] run lg by simp
  next
    case (ActionClose ac)
    then show ?thesis using close_impossible [OF i, of ac] p by simp
  next
    case (ActionConfirmRoundFinished ac)
    then show ?thesis using confirm_impossible [OF i, of ac] p by simp
  qed
  have "enumerates (scoreRange env) (Players g2)"
    using v mid_dom [OF m] inv_dom [OF i] by (simp add: validEnv_def enumerates_def)
  then show ?thesis using afterAction_inv [OF m _ aa] by simp
qed

lemma two_keys: "distinct ks \<Longrightarrow> set ks = {0, 1::int} \<Longrightarrow> ks = [0, 1] \<or> ks = [1, 0]"
proof -
  assume d: "distinct ks" and s: "set ks = {0, 1::int}"
  have "length ks = 2" using distinct_card [OF d] s by simp
  then obtain a b where "ks = [a, b]"
    by (metis (no_types, opaque_lifting) One_nat_def Suc_1 length_0_conv length_Suc_conv)
  with s d show ?thesis by (auto simp: doubleton_eq_iff)
qed

lemma dealLoop_eq: "dealLoop n hand cards = (hand @ take n cards, drop n cards)"
  by (induction n arbitrary: hand cards) (auto split: list.splits)

lemma dealHand_eq: "dealHand cards = (take 7 cards, drop 7 cards)"
  by (simp add: dealHand_def dealLoop_eq)

lemma fold_opts:
  "set opts \<subseteq> range WithMaxPoints \<Longrightarrow> \<exists>m. fold (\<lambda>opt gs. opt gs) opts g = g\<lparr>RuleMaxPoints := m\<rparr>"
proof (induction opts arbitrary: g)
  case Nil
  have "g = g\<lparr>RuleMaxPoints := RuleMaxPoints g\<rparr>" by simp
  then show ?case by (metis fold_simps(1))
next
  case (Cons opt opts)
  then obtain m where "opt = WithMaxPoints m" by auto
  moreover obtain m' where "fold (\<lambda>opt gs. opt gs) opts (g\<lparr>RuleMaxPoints := m\<rparr>)
      = g\<lparr>RuleMaxPoints := m\<rparr>\<lparr>RuleMaxPoints := m'\<rparr>"
    using Cons.IH [of "g\<lparr>RuleMaxPoints := m\<rparr>"] Cons.prems by auto
  ultimately show ?case by (auto simp: WithMaxPoints_def)
qed

lemma length_unshuffledCards: "length unshuffledCards = 48"
  by (simp add: unshuffledCards_def upto_rec_numeral)

lemma isShuffle_length: "isShuffle cards \<Longrightarrow> length cards = 48"
  using length_unshuffledCards by (metis isShuffle_def size_mset)


lemma startNewRound_first:
  assumes cards: "shuffled env = h0 @ h1 @ c # pile" "length h0 = 7" "length h1 = 7"
    and sh: "isShuffle (shuffled env)"
    and keys: "keyRange env = [0, 1] \<or> keyRange env = [1, 0]"
    and res: "startNewRound env ((initialState d)\<lparr>RuleMaxPoints := m\<rparr>) = Inr g"
  shows "table g h0 h1 \<and> \<not> IsGameEnded g \<and> \<not> HasDrawnCard g \<and> DiscardPile g = [c]
         \<and> DrawPile g = pile \<and> TurnPlayerID g = 0 \<and> RuleMaxPoints g = m"
proof -
  have ms: "mset pile + {#c#} + mset h0 + mset h1 = mset unshuffledCards"
    using sh cards(1) by (simp add: isShuffle_def ac_simps)
  from keys show ?thesis
  proof
    assume k: "keyRange env = [0, 1]"
    show ?thesis
      using res ms cards k
      by (auto simp: startNewRound_def initialState_def dealHand_eq setHand_def isEmpty_def
          drawCard_def handOf_def bindE_eq_Inr table_def wrap64_def)
  next
    assume k: "keyRange env = [1, 0]"
    show ?thesis
      using res ms cards k
      by (auto simp: startNewRound_def initialState_def dealHand_eq setHand_def isEmpty_def
          drawCard_def handOf_def bindE_eq_Inr table_def wrap64_def)
  qed
qed

lemma New_inv:
  assumes v: "validEnv env (initialState (shuffled env))"
    and o: "set opts \<subseteq> range WithMaxPoints" and r: "New opts env = Inr g"
  shows "inv g \<and> \<not> IsGameEnded g \<and> \<not> HasDrawnCard g \<and> length (DiscardPile g) = 1
         \<and> length (DrawPile g) = 33"
proof -
  have sh: "isShuffle (shuffled env)" using v by (simp add: validEnv_def)
  have len: "length (shuffled env) = 48" using isShuffle_length [OF sh] .
  have keys: "keyRange env = [0, 1] \<or> keyRange env = [1, 0]"
    using v by (intro two_keys) (auto simp: validEnv_def enumerates_def initialState_def)
  define h0 where "h0 = take 7 (shuffled env)"
  define h1 where "h1 = take 7 (drop 7 (shuffled env))"
  define rest where "rest = drop 14 (shuffled env)"
  have "length rest = 34" using len by (simp add: rest_def)
  then obtain c pile where cp: "rest = c # pile" "length pile = 33" by (cases rest) auto
  have split: "shuffled env = h0 @ h1 @ c # pile"
    unfolding h0_def h1_def cp(1) [symmetric] rest_def
    by (metis add_numeral_left append_take_drop_id drop_drop numeral_Bit0 numeral_Bit1 numeral_One semiring_norm(2,3) take_drop add.commute)
  have l: "length h0 = 7" "length h1 = 7" using len by (simp_all add: h0_def h1_def)
  obtain m where m: "fold (\<lambda>opt gs. opt gs) opts (initialState (shuffled env))
                       = (initialState (shuffled env))\<lparr>RuleMaxPoints := m\<rparr>"
    using fold_opts [OF o] by blast
  have "startNewRound env ((initialState (shuffled env))\<lparr>RuleMaxPoints := m\<rparr>) = Inr g"
    using r m by (simp add: New_def)
  from startNewRound_first [OF split l sh keys this]
  show ?thesis using l cp(2) unfolding inv_def by auto
qed

lemma reachable_inv: "reachable g \<Longrightarrow> inv g"
proof (induction rule: reachable.induct)
  case (reach_New env opts g)
  then show ?case using New_inv by blast
next
  case (reach_RunAction g env a g')
  then show ?case using RunAction_inv by blast
qed

lemma upto_1_12: "[1..12] = [1, 2, 3, 4, 5, 6, 7, 8, 9, 10, 11, 12 :: int]"
  by code_simp

lemma cards_eval: "unshuffledCards =
     map (\<lambda>i. \<lparr>Suit = ''oro'', Number = i\<rparr>) [1, 2, 3, 4, 5, 6, 7, 8, 9, 10, 11, 12]
   @ map (\<lambda>i. \<lparr>Suit = ''copa'', Number = i\<rparr>) [1, 2, 3, 4, 5, 6, 7, 8, 9, 10, 11, 12]
   @ map (\<lambda>i. \<lparr>Suit = ''espada'', Number = i\<rparr>) [1, 2, 3, 4, 5, 6, 7, 8, 9, 10, 11, 12]
   @ map (\<lambda>i. \<lparr>Suit = ''basto'', Number = i\<rparr>) [1, 2, 3, 4, 5, 6, 7, 8, 9, 10, 11, 12]"
  by (simp add: unshuffledCards_def upto_1_12 ORO_def COPA_def ESPADA_def BASTO_def)

lemma distinct_unshuffledCards: "distinct unshuffledCards"
  by (simp add: cards_eval)

lemma exampleEnv_valid: "validEnv exampleEnv g \<longleftrightarrow> dom (Players g) = {0, 1}"
  by (auto simp: validEnv_def exampleEnv_def isShuffle_def enumerates_def)

lemma deck_split:
  assumes "isShuffle cards"
  shows "\<exists>h0 h1 c pile. cards = h0 @ h1 @ c # pile \<and> length h0 = 7 \<and> length h1 = 7
           \<and> length pile = 33"
proof -
  have len: "length cards = 48" using isShuffle_length [OF assms] .
  define rest where "rest = drop 14 cards"
  have "length rest = 34" using len by (simp add: rest_def)
  then obtain c pile where cp: "rest = c # pile" "length pile = 33" by (cases rest) auto
  have "cards = take 7 cards @ drop 7 cards" by simp
  also have "drop 7 cards = take 7 (drop 7 cards) @ drop 7 (drop 7 cards)"
    by (rule append_take_drop_id [symmetric])
  also have "drop 7 (drop 7 cards) = c # pile" using cp(1) by (simp add: rest_def)
  finally have "cards = take 7 cards @ take 7 (drop 7 cards) @ c # pile" .
  moreover have "length (take 7 cards) = 7" "length (take 7 (drop 7 cards)) = 7"
    using len by simp_all
  ultimately show ?thesis using cp(2) by blast
qed

lemma startNewRound_total:
  assumes cards: "shuffled env = h0 @ h1 @ c # pile" "length h0 = 7" "length h1 = 7"
    and keys: "keyRange env = [0, 1] \<or> keyRange env = [1, 0]"
  shows "\<exists>g. startNewRound env ((initialState d)\<lparr>RuleMaxPoints := m\<rparr>) = Inr g"
  using keys cards
  by (auto simp: startNewRound_def initialState_def dealHand_eq setHand_def isEmpty_def
          drawCard_def handOf_def Calculate_ok wrap64_def)

lemma New_total:
  assumes v: "validEnv env (initialState (shuffled env))"
    and o: "set opts \<subseteq> range WithMaxPoints"
  shows "\<exists>g. New opts env = Inr g"
proof -
  have sh: "isShuffle (shuffled env)" using v by (simp add: validEnv_def)
  have keys: "keyRange env = [0, 1] \<or> keyRange env = [1, 0]"
    using v by (intro two_keys) (auto simp: validEnv_def enumerates_def initialState_def)
  obtain m where m: "fold (\<lambda>opt gs. opt gs) opts (initialState (shuffled env))
                       = (initialState (shuffled env))\<lparr>RuleMaxPoints := m\<rparr>"
    using fold_opts [OF o] by blast
  have n: "New opts env = startNewRound env ((initialState (shuffled env))\<lparr>RuleMaxPoints := m\<rparr>)"
    using m by (simp add: New_def)
  from deck_split [OF sh] obtain h0 h1 c pile where
    "shuffled env = h0 @ h1 @ c # pile" "length h0 = 7" "length h1 = 7" by blast
  from startNewRound_total [OF this keys] show ?thesis unfolding n .
qed

lemma exampleGame_New: "New [] exampleEnv = Inr exampleGame"
proof -
  have "validEnv exampleEnv (initialState (shuffled exampleEnv))"
    by (simp add: exampleEnv_valid) (auto simp: initialState_def)
  from New_total [OF this, of "[]"] show ?thesis by (auto simp: exampleGame_def)
qed

lemma exampleGame_reachable: "reachable exampleGame"
proof -
  have "validEnv exampleEnv (initialState (shuffled exampleEnv))"
    by (simp add: exampleEnv_valid) (auto simp: initialState_def)
  then show ?thesis using exampleGame_New by (intro reach_New [of exampleEnv "[]"]) simp_all
qed

section \<open>The reachable states\<close>

lemma candidates_not_drawn:
  "\<not> HasDrawnCard g \<Longrightarrow> \<not> IsRoundFinished g \<Longrightarrow> candidates g h =
     [NewActionDrawFromDeck (TurnPlayerID g), NewActionDrawFromDiscard (TurnPlayerID g),
      NewActionConfirmRoundFinished (TurnPlayerID g),
      NewActionConfirmRoundFinished (TurnOpponentPlayerID g)]"
  by (simp add: candidates_def)

lemma candidates_drawn:
  "HasDrawnCard g \<Longrightarrow> \<not> IsRoundFinished g \<Longrightarrow> candidates g h =
     map (\<lambda>crd. NewActionDiscardCard crd (TurnPlayerID g)) h
     @ (if CanClose g (TurnPlayerID g) = Inr True then [NewActionClose (TurnPlayerID g)] else [])
     @ [NewActionConfirmRoundFinished (TurnPlayerID g),
        NewActionConfirmRoundFinished (TurnOpponentPlayerID g)]"
  by (simp add: candidates_def)

lemmas eval_simps = New_def startNewRound_def exampleEnv_def initialState_def cards_eval
      dealHand_eq setHand_def isEmpty_def drawCard_def handOf_def Calculate_ok candidates_not_drawn
      candidates_drawn wrap64_def RunAction_def Run_def logAction_def updateRoundLog_def
      afterAction_def finishAction_def countActionsOfTurnPlayer_def CanClose_def
      NewActionDrawFromDeck_def NewActionDrawFromDiscard_def NewActionDiscardCard_def
      NewActionClose_def NewActionConfirmRoundFinished_def GetName_def GetPlayerID_def
      CONFIRM_ROUND_FINISHED_def DRAW_FROM_DECK_def DRAW_FROM_DISCARD_def AddCard_def
      changeTurn_def WithMaxPoints_def DefaultMaxPoints_def emptyRoundLog_def confirmed_def

lemma exampleDrawn_eval:
  "\<exists>g. RunAction exampleEnv (Some (NewActionDrawFromDiscard 0)) exampleGame = Inr g
       \<and> DiscardPile g = [] \<and> HasDrawnCard g \<and> \<not> IsGameEnded g"
  by (simp add: exampleGame_def eval_simps)

lemma exampleEnded_eval:
  "\<exists>g. RunAction exampleEnv (Some (NewActionDrawFromDeck 0)) exampleZero = Inr g
       \<and> TurnPlayerID g = 1 \<and> \<not> HasDrawnCard g \<and> IsGameEnded g
       \<and> (\<exists>h. handOf g 0 = Inr h \<and> length h = 8)"
  by (simp add: exampleZero_def eval_simps)


lemma exampleDrawn_run:
  "RunAction exampleEnv (Some (NewActionDrawFromDiscard 0)) exampleGame = Inr exampleDrawn"
  using exampleDrawn_eval by (auto simp: exampleDrawn_def)

lemma exampleDrawn_reachable: "reachable exampleDrawn"
proof -
  have "validEnv exampleEnv exampleGame"
    using inv_dom [OF reachable_inv [OF exampleGame_reachable]] by (simp add: exampleEnv_valid)
  then show ?thesis by (rule reach_RunAction [OF exampleGame_reachable _ exampleDrawn_run])
qed

lemma exampleZero_reachable: "reachable exampleZero"
proof -
  have v: "validEnv exampleEnv (initialState (shuffled exampleEnv))"
    by (simp add: exampleEnv_valid) (auto simp: initialState_def)
  from New_total [OF v, of "[WithMaxPoints 0]"] have "New [WithMaxPoints 0] exampleEnv = Inr exampleZero"
    by (auto simp: exampleZero_def)
  with v show ?thesis by (intro reach_New [of exampleEnv "[WithMaxPoints 0]"]) simp_all
qed

lemma exampleEnded_run:
  "RunAction exampleEnv (Some (NewActionDrawFromDeck 0)) exampleZero = Inr exampleEnded"
  using exampleEnded_eval by (auto simp: exampleEnded_def)

lemma exampleEnded_reachable: "reachable exampleEnded"
proof -
  have "validEnv exampleEnv exampleZero"
    using inv_dom [OF reachable_inv [OF exampleZero_reachable]] by (simp add: exampleEnv_valid)
  then show ?thesis by (rule reach_RunAction [OF exampleZero_reachable _ exampleEnded_run])
qed

text \<open>
  Claim C1. In every reachable state the close action is not possible, whoever plays it,
  and it is not among the legal moves that \<open>CalculatePossibleActions\<close> returns: when
  \<open>HasDrawnCard\<close> holds the turn player has 8 cards, and \<open>CanClose\<close> wants 7. So no round
  is ever finished.
\<close>

theorem C1_close_never_possible:
  assumes "reachable g"
  shows "(\<forall>a. IsPossible (ActionClose a) g = Inr False)
       \<and> (\<exists>as. CalculatePossibleActions g = Inr as \<and> (\<forall>a. ActionClose a \<notin> set as))
       \<and> \<not> IsRoundFinished g
       \<and> (HasDrawnCard g \<longrightarrow> (\<exists>h. handOf g (TurnPlayerID g) = Inr h \<and> length h = 8))"
proof -
  have i: "inv g" using assms by (rule reachable_inv)
  then obtain ht ho where t: "table g ht ho" and e: "IsGameEnded g \<longrightarrow> \<not> HasDrawnCard g"
    and s: "\<not> IsGameEnded g \<longrightarrow> length ht = (if HasDrawnCard g then 8 else 7)"
    by (auto simp: inv_def)
  have h: "handOf g (TurnPlayerID g) = Inr ht" using table_handOf [OF t] by simp
  have c: "IsPossible (ActionClose a) g = Inr False" for a using close_impossible [OF i] .
  have "CalculatePossibleActions g
          = Inr (filter (\<lambda>a. IsPossible a g = Inr True) (candidates g ht))"
    using Calculate_ok [OF h] .
  moreover have "ActionClose a \<notin> set (filter (\<lambda>a. IsPossible a g = Inr True) (candidates g ht))"
    for a using c [of a] by simp
  moreover have "\<not> IsRoundFinished g" using t by (auto simp: table_def)
  moreover have "HasDrawnCard g \<longrightarrow> length ht = 8" using e s by auto
  ultimately show ?thesis using c h by auto
qed

theorem C1_close_never_possible_witness:
  "reachable exampleGame \<and> IsPossible (NewActionClose 0) exampleGame = Inr False
   \<and> \<not> IsRoundFinished exampleGame"
proof -
  have "IsPossible (ActionClose \<lparr>Name = CLOSE_ROUND, PlayerID = 0\<rparr>) exampleGame = Inr False"
    and "\<not> IsRoundFinished exampleGame"
    using C1_close_never_possible [OF exampleGame_reachable] by blast+
  then show ?thesis using exampleGame_reachable by (simp only: NewActionClose_def simp_thms)
qed

text \<open>
  Claim C3, amended. In every reachable state the draw pile, the discard pile and the two
  hands hold 48 cards together (not 40): they are a partition of the deck of 4 suits and
  the numbers 1 to 12 that \<open>makeSpanishCards\<close> builds, with no card twice and none lost.
\<close>

theorem C3_card_conservation:
  assumes "reachable g"
  shows "dom (Players g) = {0, 1}
       \<and> (\<exists>h0 h1. handOf g 0 = Inr h0 \<and> handOf g 1 = Inr h1
             \<and> length (DrawPile g) + length (DiscardPile g) + length h0 + length h1 = 48
             \<and> mset (DrawPile g) + mset (DiscardPile g) + mset h0 + mset h1
                 = mset unshuffledCards
             \<and> distinct (DrawPile g @ DiscardPile g @ h0 @ h1))"
proof -
  have "inv g" using assms by (rule reachable_inv)
  then obtain ht ho where t: "table g ht ho" by (auto simp: inv_def)
  have h: "handOf g (TurnPlayerID g) = Inr ht" "handOf g (TurnOpponentPlayerID g) = Inr ho"
    using table_handOf [OF t] by simp_all
  have m: "mset (DrawPile g) + mset (DiscardPile g) + mset ht + mset ho = mset unshuffledCards"
    and d: "dom (Players g) = {0, 1}"
    and tt: "TurnPlayerID g = 0 \<and> TurnOpponentPlayerID g = 1
             \<or> TurnPlayerID g = 1 \<and> TurnOpponentPlayerID g = 0"
    using t by (auto simp: table_def)
  have m': "mset (DrawPile g @ DiscardPile g @ ht @ ho) = mset unshuffledCards"
    using m by (simp add: ac_simps)
  have l: "length (DrawPile g) + length (DiscardPile g) + length ht + length ho = 48"
    using arg_cong [OF m', of size] length_unshuffledCards by simp
  have di: "distinct (DrawPile g @ DiscardPile g @ ht @ ho)"
    using mset_eq_imp_distinct_iff [OF m'] distinct_unshuffledCards by simp
  from tt show ?thesis
  proof
    assume a: "TurnPlayerID g = 0 \<and> TurnOpponentPlayerID g = 1"
    have "handOf g 0 = Inr ht" "handOf g 1 = Inr ho" using h a by simp_all
    with m l di d show ?thesis by blast
  next
    assume a: "TurnPlayerID g = 1 \<and> TurnOpponentPlayerID g = 0"
    have p: "mset (DrawPile g @ DiscardPile g @ ho @ ht) = mset (DrawPile g @ DiscardPile g @ ht @ ho)"
      by (simp add: ac_simps)
    have di': "distinct (DrawPile g @ DiscardPile g @ ho @ ht)"
      using di mset_eq_imp_distinct_iff [OF p] by simp
    have m2: "mset (DrawPile g) + mset (DiscardPile g) + mset ho + mset ht = mset unshuffledCards"
      using m by (simp add: ac_simps)
    have l2: "length (DrawPile g) + length (DiscardPile g) + length ho + length ht = 48"
      using l by simp
    have "handOf g 0 = Inr ho" "handOf g 1 = Inr ht" using h a by simp_all
    with m2 l2 di' d show ?thesis by blast
  qed
qed

theorem C3_card_conservation_witness:
  "reachable exampleGame \<and> dom (Players exampleGame) = {0, 1}"
  using C3_card_conservation [OF exampleGame_reachable] exampleGame_reachable by simp

text \<open>Claim C3 as stated fails in the state that \<open>New()\<close> returns: 33 + 1 + 7 + 7 cards.\<close>

theorem C3_forty_cards_counterexample:
  "reachable exampleGame \<and> length (DrawPile exampleGame) = 33
   \<and> length (DiscardPile exampleGame) = 1
   \<and> map_sum id length (handOf exampleGame 0) = Inr 7
   \<and> map_sum id length (handOf exampleGame 1) = Inr 7
   \<and> 33 + 1 + 7 + 7 \<noteq> (40 :: nat)"
  using exampleGame_reachable by (simp add: exampleGame_def eval_simps)




text \<open>
  Claim C6, amended. In every reachable state of a game that has not ended (every
  reachable state, when \<open>RuleMaxPoints\<close> is positive), the opponent of the turn player
  has 7 cards, and the turn player has 8 cards when \<open>HasDrawnCard\<close> holds and 7 when not.
\<close>

theorem C6_hand_sizes:
  assumes "reachable g" and "\<not> IsGameEnded g \<or> 0 < RuleMaxPoints g"
  shows "\<exists>ht ho. handOf g (TurnPlayerID g) = Inr ht \<and> handOf g (TurnOpponentPlayerID g) = Inr ho
           \<and> {TurnPlayerID g, TurnOpponentPlayerID g} = {0, 1}
           \<and> length ho = 7 \<and> length ht = (if HasDrawnCard g then 8 else 7)"
proof -
  have "inv g" using assms(1) by (rule reachable_inv)
  then obtain ht ho where t: "table g ht ho"
    and s: "\<not> IsGameEnded g \<longrightarrow> length ho = 7 \<and> length ht = (if HasDrawnCard g then 8 else 7)"
    by (auto simp: inv_def)
  have ne: "\<not> IsGameEnded g" using t assms(2) by (auto simp: table_def)
  have "{TurnPlayerID g, TurnOpponentPlayerID g} = {0, 1}" using t by (auto simp: table_def)
  then show ?thesis using table_handOf [OF t] s ne by auto
qed

theorem C6_hand_sizes_witness:
  "reachable exampleDrawn \<and> \<not> IsGameEnded exampleDrawn \<and> HasDrawnCard exampleDrawn
   \<and> (\<exists>ht. handOf exampleDrawn (TurnPlayerID exampleDrawn) = Inr ht \<and> length ht = 8)"
proof -
  have a: "\<not> IsGameEnded exampleDrawn" "HasDrawnCard exampleDrawn"
    using exampleDrawn_eval exampleDrawn_run by auto
  show ?thesis
    using C6_hand_sizes [OF exampleDrawn_reachable] a exampleDrawn_reachable by auto
qed

text \<open>Claim C6 as stated fails after \<open>New(WithMaxPoints(0))\<close> and a draw from the deck:
  the game ends by score, the turn passes, and player 0 keeps 8 cards with
  \<open>HasDrawnCard\<close> false.\<close>

theorem C6_eight_cards_counterexample:
  "reachable exampleEnded \<and> TurnPlayerID exampleEnded = 1 \<and> \<not> HasDrawnCard exampleEnded
   \<and> map_sum id length (handOf exampleEnded 0) = Inr 8"
  using exampleEnded_reachable exampleEnded_eval exampleEnded_run by auto

section \<open>Serialization of actions\<close>


















section \<open>Closing a round\<close>

lemma enumerates_two:
  "enumerates ks m \<Longrightarrow> dom m = {0, 1} \<Longrightarrow> ks = [0, 1] \<or> ks = [1, 0]"
  by (rule two_keys) (simp_all add: enumerates_def)

lemma OpponentOf_two:
  "ks = [0, 1] \<or> ks = [1, 0] \<Longrightarrow> OpponentOf ks 0 = 1 \<and> OpponentOf ks 1 = 0"
  by auto

lemma closeLoop_plain:
  assumes "Players g 0 = Some p0" "Players g 1 = Some p1" "Hand p0 = Some h0" "Hand p1 = Some h1"
    and "\<not> IsChinchon h0" "\<not> IsChinchon h1" and "ids = [0, 1] \<or> ids = [1, 0]"
  shows "closeLoop keys ids g Map.empty
           = Inr [0 \<mapsto> PenaltyPoints h0 (ValidGroups h0), 1 \<mapsto> PenaltyPoints h1 (ValidGroups h1)]"
  using assms by (auto simp: fun_upd_twist)

lemma addScore_Some:
  "Players g pid = Some p \<Longrightarrow>
     addScore g pid n = Inr (g\<lparr>Players := (Players g)(pid \<mapsto> p\<lparr>Score := wrap64 (Score p + n)\<rparr>)\<rparr>)"
  by (simp add: addScore_def)

lemma CloseRound_scores:
  assumes c: "closer = 0 \<or> closer = 1"
    and pl: "Players g closer = Some plc" "Players g (1 - closer) = Some plo"
      "Hand plc = Some hc" "Hand plo = Some ho"
    and nc: "\<not> IsChinchon hc" "\<not> IsChinchon ho"
    and ids: "ids = [0, 1] \<or> ids = [1, 0]" and keys: "keys = [0, 1] \<or> keys = [1, 0]"
    and rn: "0 \<le> RoundNumber g" "nat (RoundNumber g) < length (RoundsLog g)"
  shows "\<exists>g' plc' plo'. CloseRound ids keys closer g = Inr g'
           \<and> Players g' closer = Some plc' \<and> Players g' (1 - closer) = Some plo'
           \<and> (if PenaltyPoints hc (ValidGroups hc) < PenaltyPoints ho (ValidGroups ho)
               then Score plc' = Score plc
                  \<and> Score plo' = wrap64 (Score plo + PenaltyPoints ho (ValidGroups ho)
                                     + (if PenaltyPoints hc (ValidGroups hc) = 0 then 10 else 0))
               else Score plc' = wrap64 (Score plc + PenaltyPoints hc (ValidGroups hc))
                  \<and> Score plo' = wrap64 (Score plo + PenaltyPoints ho (ValidGroups ho)))"
proof -
  define a where "a = PenaltyPoints hc (ValidGroups hc)"
  define b where "b = PenaltyPoints ho (ValidGroups ho)"
  define g1 where "g1 = g\<lparr>IsRoundFinished := True, CurrentRoundClosedByPlayerID := closer\<rparr>"
  have pl1: "Players g1 closer = Some plc" "Players g1 (1 - closer) = Some plo"
    and rn1: "0 \<le> RoundNumber g1" "nat (RoundNumber g1) < length (RoundsLog g1)"
    using pl rn by (simp_all add: g1_def)
  have op: "OpponentOf keys closer = 1 - closer" using c keys by auto
  from c show ?thesis
  proof
    assume c0: "closer = 0"
    have cl: "closeLoop keys ids g1 Map.empty = Inr [0 \<mapsto> a, 1 \<mapsto> b]"
      unfolding a_def b_def
      using closeLoop_plain [of g1 plc plo hc ho ids keys] pl1 pl nc ids c0 by simp
    show ?thesis
      using ids
      unfolding CloseRound_def g1_def [symmetric] a_def [symmetric] b_def [symmetric]
      using pl1 rn1 op c0
      by (auto simp: cl penaltyOf_def addScore_def updateRoundLog_def wrap64_wrap64_add Let_def)
  next
    assume c1: "closer = 1"
    have cl: "closeLoop keys ids g1 Map.empty = Inr [0 \<mapsto> b, 1 \<mapsto> a]"
      unfolding a_def b_def
      using closeLoop_plain [of g1 plo plc ho hc ids keys] pl1 pl nc ids c1 by simp
    show ?thesis
      using ids
      unfolding CloseRound_def g1_def [symmetric] a_def [symmetric] b_def [symmetric]
      using pl1 rn1 op c1
      by (auto simp: cl penaltyOf_def addScore_def updateRoundLog_def wrap64_wrap64_add Let_def)
  qed
qed


lemma CloseRound_chinchon:
  assumes d: "dom (Players g) = {0, 1}"
    and ch: "Players g pid = Some p" "Hand p = Some h" "IsChinchon h"
    and ids: "ids = [0, 1] \<or> ids = [1, 0]" and keys: "keys = [0, 1] \<or> keys = [1, 0]"
    and rn: "0 \<le> RoundNumber g" "nat (RoundNumber g) < length (RoundsLog g)"
  shows "\<exists>g'. CloseRound ids keys closer g = Inr g' \<and> IsGameEnded g'
           \<and> (\<exists>pw hw. Players g (WinnerPlayerID g') = Some pw \<and> Hand pw = Some hw
                  \<and> IsChinchon hw)
           \<and> (WinnerPlayerID g' = 0 \<and> LoserPlayerID g' = 1
               \<or> WinnerPlayerID g' = 1 \<and> LoserPlayerID g' = 0)
           \<and> WasChinchon (RoundsLog g' ! nat (RoundNumber g'))
           \<and> RoundNumber g' = RoundNumber g \<and> Players g' = Players g"
proof -
  obtain p0 p1 where pp: "Players g 0 = Some p0" "Players g 1 = Some p1"
    using d by (metis domD insertCI)
  have pid: "pid = 0 \<or> pid = 1" using ch(1) d by (metis domI empty_iff insertE)
  define g1 where "g1 = g\<lparr>IsRoundFinished := True, CurrentRoundClosedByPlayerID := closer\<rparr>"
  define end0 where "end0 = updateRoundLog
      (g1\<lparr>IsGameEnded := True, WinnerPlayerID := 0, LoserPlayerID := 1\<rparr>)
      (\<lambda>l. l\<lparr>WasChinchon := True\<rparr>)"
  define end1 where "end1 = updateRoundLog
      (g1\<lparr>IsGameEnded := True, WinnerPlayerID := 1, LoserPlayerID := 0\<rparr>)
      (\<lambda>l. l\<lparr>WasChinchon := True\<rparr>)"
  have op: "OpponentOf keys 0 = 1" "OpponentOf keys 1 = 0" using keys by auto
  have c0: "closeLoop keys (0 # rest) g1 pn = Inl end0" if "Hand p0 = Some h0" "IsChinchon h0"
    for rest pn h0 using that pp op by (simp add: g1_def end0_def)
  have c1: "closeLoop keys (1 # rest) g1 pn = Inl end1" if "Hand p1 = Some h1" "IsChinchon h1"
    for rest pn h1 using that pp op by (simp add: g1_def end1_def)
  have s0: "closeLoop keys (0 # rest) g1 pn = closeLoop keys rest g1 pn'
            \<and> True" if "\<not> (\<exists>h0. Hand p0 = Some h0 \<and> IsChinchon h0)"
      "pn' = (case Hand p0 of None \<Rightarrow> pn | Some h0 \<Rightarrow> pn(0 \<mapsto> PenaltyPoints h0 (ValidGroups h0)))"
    for rest pn pn' using that pp by (cases "Hand p0") (simp_all add: g1_def)
  have s1: "closeLoop keys (1 # rest) g1 pn = closeLoop keys rest g1 pn'
            \<and> True" if "\<not> (\<exists>h1. Hand p1 = Some h1 \<and> IsChinchon h1)"
      "pn' = (case Hand p1 of None \<Rightarrow> pn | Some h1 \<Rightarrow> pn(1 \<mapsto> PenaltyPoints h1 (ValidGroups h1)))"
    for rest pn pn' using that pp by (cases "Hand p1") (simp_all add: g1_def)
  have e0: "\<exists>g'. end0 = Inr g' \<and> IsGameEnded g' \<and> WinnerPlayerID g' = 0 \<and> LoserPlayerID g' = 1
            \<and> WasChinchon (RoundsLog g' ! nat (RoundNumber g'))
            \<and> RoundNumber g' = RoundNumber g \<and> Players g' = Players g"
    using rn by (simp add: end0_def g1_def updateRoundLog_def)
  have e1: "\<exists>g'. end1 = Inr g' \<and> IsGameEnded g' \<and> WinnerPlayerID g' = 1 \<and> LoserPlayerID g' = 0
            \<and> WasChinchon (RoundsLog g' ! nat (RoundNumber g'))
            \<and> RoundNumber g' = RoundNumber g \<and> Players g' = Players g"
    using rn by (simp add: end1_def g1_def updateRoundLog_def)
  have r: "CloseRound ids keys closer g = (case closeLoop keys ids g1 Map.empty of
             Inl result \<Rightarrow> result | Inr pn \<Rightarrow> CloseRound ids keys closer g)"
    by (simp add: CloseRound_def g1_def Let_def split: sum.splits)
  consider (a) h0 where "Hand p0 = Some h0" "IsChinchon h0" "ids = [0, 1]"
    | (b) h1 where "Hand p1 = Some h1" "IsChinchon h1" "ids = [1, 0]"
    | (c) h1 where "\<not> (\<exists>h0. Hand p0 = Some h0 \<and> IsChinchon h0)" "Hand p1 = Some h1"
        "IsChinchon h1" "ids = [0, 1]"
    | (d) h0 where "\<not> (\<exists>h1. Hand p1 = Some h1 \<and> IsChinchon h1)" "Hand p0 = Some h0"
        "IsChinchon h0" "ids = [1, 0]"
    using ids pid ch pp by (cases "\<exists>h0. Hand p0 = Some h0 \<and> IsChinchon h0";
        cases "\<exists>h1. Hand p1 = Some h1 \<and> IsChinchon h1") auto
  then show ?thesis
  proof cases
    case a
    have "CloseRound ids keys closer g = end0" using r c0 [OF a(1,2)] a(3) by simp
    then show ?thesis using e0 pp a by auto
  next
    case b
    have "CloseRound ids keys closer g = end1" using r c1 [OF b(1,2)] b(3) by simp
    then show ?thesis using e1 pp b by auto
  next
    case c
    have "closeLoop keys [0, 1] g1 Map.empty = Inl end1"
      using s0 [OF c(1) refl] c1 [OF c(2,3)] by simp
    then have "CloseRound ids keys closer g = end1" using r c(4) by simp
    then show ?thesis using e1 pp c by auto
  next
    case d
    have "closeLoop keys [1, 0] g1 Map.empty = Inl end0"
      using s1 [OF d(1) refl] c0 [OF d(2,3)] by simp
    then have "CloseRound ids keys closer g = end0" using r d(4) by simp
    then show ?thesis using e0 pp d by auto
  qed
qed

end
